theory Spec2Isabelle
  imports Main
begin

section \<open>Data model of the database-backed backend (models/Task.js, models/Category.js)\<close>

text \<open>
  Object ids and dates. An ObjectId is kept as the string of its hexadecimal form, in
  lower case as \<^verbatim>\<open>toString\<close> prints it; a \<^verbatim>\<open>Date\<close> is its number of
  milliseconds since the epoch. A field whose schema default is \<^verbatim>\<open>null\<close>, or that
  may be \<^verbatim>\<open>undefined\<close>, is an option. A character is a code point below 256, so a
  string has as many UTF-16 code units as it has characters.
\<close>

type_synonym oid = string
type_synonym date = int

text \<open>
  The task document as the collection stores it (taskSchema). The fields tags,
  attachments, recurring, timeEstimate, actualTime and notes carry no relation to other
  documents and are left out. \<open>t_createdAt\<close> and \<open>t_updatedAt\<close> are the timestamps that
  Mongoose keeps (\<^verbatim>\<open>timestamps: true\<close>). The schema declares no
  \<^verbatim>\<open>completedAt\<close>, so a stored task has none.
\<close>

record task =
  t_id :: oid
  title :: string
  t_description :: "string option"
  completed :: bool
  priority :: string
  categoryId :: "oid option"
  dueDate :: "date option"
  t_userId :: oid
  t_createdAt :: date
  t_updatedAt :: date

datatype status = Completed | Overdue | DueSoon | Pending

text \<open>
  taskSchema.virtual('status'). The getter reads the clock twice (\<^verbatim>\<open>new Date()\<close> in
  the second and in the third line); \<open>status_at\<close> takes both readings, \<open>status\<close> is
  the getter when both readings are the same instant. A \<^verbatim>\<open>Date\<close> object is truthy,
  so \<^verbatim>\<open>this.dueDate && ...\<close> tests that a due date is present.
\<close>

definition dayMs :: int where
  "dayMs = 24 * 60 * 60 * 1000"

definition status_at :: "date \<Rightarrow> date \<Rightarrow> task \<Rightarrow> status" where
  "status_at now1 now2 t =
     (if completed t then Completed
      else if (case dueDate t of None \<Rightarrow> False | Some d \<Rightarrow> now1 > d) then Overdue
      else if (case dueDate t of None \<Rightarrow> False | Some d \<Rightarrow> d - now2 < dayMs) then DueSoon
      else Pending)"

definition status :: "date \<Rightarrow> task \<Rightarrow> status" where
  "status now t = status_at now now t"

text \<open>
  The document object that a query hands to a route: the stored fields, and the property
  \<^verbatim>\<open>completedAt\<close> that markComplete, markIncomplete and toggleComplete assign on the
  object. Since the schema does not declare it, the property is neither saved nor
  serialised, and a document that was just loaded does not have it.
\<close>

record taskDocument =
  paths :: task
  completedAt :: "date option"

definition loaded :: "task \<Rightarrow> taskDocument" where
  "loaded t = \<lparr>paths = t, completedAt = None\<rparr>"

text \<open>
  taskSchema.methods.toggleComplete on the document object. \<open>now\<close> is \<^verbatim>\<open>new Date()\<close>
  in the method, \<open>saved\<close> the time at which \<^verbatim>\<open>this.save()\<close> runs: \<^verbatim>\<open>completed\<close> is
  then a modified path, so the save writes it and stamps \<^verbatim>\<open>updatedAt\<close>. The method
  assigns nothing else, also none of the fields that are left out here, and the schema
  has no save hook.
\<close>

definition toggleComplete :: "date \<Rightarrow> date \<Rightarrow> taskDocument \<Rightarrow> taskDocument" where
  "toggleComplete now saved doc =
     (let doc1 = doc\<lparr>paths := (paths doc)\<lparr>completed := \<not> completed (paths doc)\<rparr>\<rparr>;
          doc2 = (if completed (paths doc1) then doc1\<lparr>completedAt := Some now\<rparr>
                  else doc1\<lparr>completedAt := None\<rparr>)
      in doc2\<lparr>paths := (paths doc2)\<lparr>t_updatedAt := saved\<rparr>\<rparr>)"

text \<open>
  What \<^verbatim>\<open>this.save()\<close> of that method writes to the collection: the modified path
  \<^verbatim>\<open>completed\<close> and the timestamp, on the document with the \<^verbatim>\<open>_id\<close>.
\<close>

definition saveToggled :: "taskDocument \<Rightarrow> task \<Rightarrow> task" where
  "saveToggled doc t =
     t\<lparr>completed := completed (paths doc), t_updatedAt := t_updatedAt (paths doc)\<rparr>"

text \<open>
  The category document (categorySchema), without its timestamps, which no route reads.
\<close>

record category =
  c_id :: oid
  name :: string
  color :: string
  icon :: string
  c_description :: "string option"
  c_userId :: oid
  isDefault :: bool
  isActive :: bool
  taskCount :: int
  sortOrder :: int

text \<open>categorySchema.methods: the three count methods of the model.\<close>

definition incrementTaskCount :: "category \<Rightarrow> category" where
  "incrementTaskCount c = c\<lparr>taskCount := taskCount c + 1\<rparr>"

definition decrementTaskCount :: "category \<Rightarrow> category" where
  "decrementTaskCount c = (if taskCount c > 0 then c\<lparr>taskCount := taskCount c - 1\<rparr> else c)"

definition countDocuments :: "('a \<Rightarrow> bool) \<Rightarrow> 'a list \<Rightarrow> nat" where
  "countDocuments P xs = length (filter P xs)"

definition updateTaskCount :: "task list \<Rightarrow> category \<Rightarrow> category" where
  "updateTaskCount ts c =
     c\<lparr>taskCount := int (countDocuments (\<lambda>t. categoryId t = Some (c_id c)) ts)\<rparr>"

section \<open>The collections and the queries the routes use\<close>

text \<open>
  The two collections, in insertion order. \<open>findOne\<close> is the first document that
  satisfies the query; \<open>updateOne\<close> changes the first document that satisfies it
  (findByIdAndUpdate, save of a loaded document), \<open>deleteOne\<close> removes it (remove of a
  loaded document), \<open>updateMany\<close> changes every such document.
\<close>

record db =
  tasks :: "task list"
  categories :: "category list"

definition findOne :: "('a \<Rightarrow> bool) \<Rightarrow> 'a list \<Rightarrow> 'a option" where
  "findOne P xs = find P xs"

fun updateOne :: "('a \<Rightarrow> bool) \<Rightarrow> ('a \<Rightarrow> 'a) \<Rightarrow> 'a list \<Rightarrow> 'a list" where
  "updateOne P f [] = []"
| "updateOne P f (x # xs) = (if P x then f x # xs else x # updateOne P f xs)"

fun deleteOne :: "('a \<Rightarrow> bool) \<Rightarrow> 'a list \<Rightarrow> 'a list" where
  "deleteOne P [] = []"
| "deleteOne P (x # xs) = (if P x then xs else x # deleteOne P xs)"

definition updateMany :: "('a \<Rightarrow> bool) \<Rightarrow> ('a \<Rightarrow> 'a) \<Rightarrow> 'a list \<Rightarrow> 'a list" where
  "updateMany P f xs = map (\<lambda>x. if P x then f x else x) xs"

text \<open>
  \<^verbatim>\<open>sort\<close>: the documents in the order \<open>le\<close>; documents that the order does not
  separate stay in the order of the collection.
\<close>

fun insertBy :: "('a \<Rightarrow> 'a \<Rightarrow> bool) \<Rightarrow> 'a \<Rightarrow> 'a list \<Rightarrow> 'a list" where
  "insertBy le x [] = [x]"
| "insertBy le x (y # ys) = (if le x y then x # y # ys else y # insertBy le x ys)"

definition sortBy :: "('a \<Rightarrow> 'a \<Rightarrow> bool) \<Rightarrow> 'a list \<Rightarrow> 'a list" where
  "sortBy le xs = foldr (insertBy le) xs []"

text \<open>\<^verbatim>\<open>Category.findByIdAndUpdate(id, { $inc: { taskCount: n } })\<close>.\<close>

definition incTaskCount :: "oid \<Rightarrow> int \<Rightarrow> category list \<Rightarrow> category list" where
  "incTaskCount i n cs = updateOne (\<lambda>c. c_id c = i) (\<lambda>c. c\<lparr>taskCount := taskCount c + n\<rparr>) cs"

section \<open>Request validation (express-validator chains of the routes)\<close>

text \<open>
  A body field that is absent (\<^verbatim>\<open>undefined\<close>) is \<open>None\<close>. The due date of a body
  is given already classified: not ISO 8601, or the date it denotes. \<open>isSpace\<close> is the
  class \<^verbatim>\<open>\s\<close> of JavaScript among the characters below 256, which the sanitizer
  \<^verbatim>\<open>trim\<close> strips from both ends.
\<close>

definition isSpace :: "char \<Rightarrow> bool" where
  "isSpace c =
     (c \<in> set [CHR '' '', CHR 0x09, CHR 0x0A, CHR 0x0B, CHR 0x0C, CHR 0x0D, CHR 0xA0])"

definition trim :: "string \<Rightarrow> string" where
  "trim s = rev (dropWhile isSpace (rev (dropWhile isSpace s)))"

definition isHexDigit :: "char \<Rightarrow> bool" where
  "isHexDigit c = (c \<in> set ''0123456789abcdefABCDEF'')"

text \<open>The lower case of an ASCII letter; another character is left as it is.\<close>

definition toLower :: "char \<Rightarrow> char" where
  "toLower c =
     (case map_of (zip ''ABCDEFGHIJKLMNOPQRSTUVWXYZ'' ''abcdefghijklmnopqrstuvwxyz'') c of
        None \<Rightarrow> c
      | Some l \<Rightarrow> l)"

text \<open>
  The validators isHexadecimal (\<^verbatim>\<open>/^(0x|0h)?[0-9A-F]+$/i\<close>) and isMongoId
  (hexadecimal and of length 24) of validator.js.
\<close>

definition isHexadecimal :: "string \<Rightarrow> bool" where
  "isHexadecimal s =
     (let digits = (case s of
                      a # b # r \<Rightarrow> if a = CHR ''0'' \<and> b \<in> set ''xXhH'' then r else s
                    | _ \<Rightarrow> s)
      in digits \<noteq> [] \<and> list_all isHexDigit digits)"

definition isMongoId :: "string \<Rightarrow> bool" where
  "isMongoId s = (isHexadecimal s \<and> length s = 24)"

definition isHexColor :: "string \<Rightarrow> bool" where
  "isHexColor s =
     (case s of [] \<Rightarrow> False
      | c # r \<Rightarrow> c = CHR ''#'' \<and> (length r = 6 \<or> length r = 3) \<and> list_all isHexDigit r)"

datatype isoInput = NotISO8601 | ISO8601 date

record taskBody =
  b_title :: "string option"
  b_description :: "string option"
  b_priority :: "string option"
  b_categoryId :: "string option"
  b_dueDate :: "isoInput option"

record categoryBody =
  cb_name :: "string option"
  cb_color :: "string option"
  cb_description :: "string option"
  cb_icon :: "string option"

definition orEmpty :: "string option \<Rightarrow> string" where
  "orEmpty v = (case v of None \<Rightarrow> [] | Some s \<Rightarrow> s)"

text \<open>validateTask: the fields that fail, in the order of the chains.\<close>

definition validateTask :: "taskBody \<Rightarrow> string list" where
  "validateTask b =
     (let n = length (trim (orEmpty (b_title b)))
      in if 1 \<le> n \<and> n \<le> 100 then [] else [''title'']) @
     (case b_description b of None \<Rightarrow> []
      | Some d \<Rightarrow> if length (trim d) \<le> 500 then [] else [''description'']) @
     (case b_priority b of None \<Rightarrow> []
      | Some p \<Rightarrow> if p \<in> set [''low'', ''medium'', ''high''] then [] else [''priority'']) @
     (case b_dueDate b of None \<Rightarrow> []
      | Some NotISO8601 \<Rightarrow> [''dueDate'']
      | Some (ISO8601 d) \<Rightarrow> []) @
     (case b_categoryId b of None \<Rightarrow> []
      | Some c \<Rightarrow> if isMongoId c then [] else [''categoryId''])"

text \<open>The sanitizers of the chains: title and description are trimmed in the body.\<close>

definition sanitizeTask :: "taskBody \<Rightarrow> taskBody" where
  "sanitizeTask b = b\<lparr>b_title := Some (trim (orEmpty (b_title b))),
                      b_description := map_option trim (b_description b)\<rparr>"

definition validateCategory :: "categoryBody \<Rightarrow> string list" where
  "validateCategory b =
     (let n = length (trim (orEmpty (cb_name b)))
      in if 1 \<le> n \<and> n \<le> 30 then [] else [''name'']) @
     (if isHexColor (orEmpty (cb_color b)) then [] else [''color'']) @
     (case cb_description b of None \<Rightarrow> []
      | Some d \<Rightarrow> if length (trim d) \<le> 100 then [] else [''description'']) @
     (case cb_icon b of None \<Rightarrow> []
      | Some i \<Rightarrow> if length (trim i) \<le> 50 then [] else [''icon''])"

definition sanitizeCategory :: "categoryBody \<Rightarrow> categoryBody" where
  "sanitizeCategory b = b\<lparr>cb_name := Some (trim (orEmpty (cb_name b))),
                          cb_description := map_option trim (cb_description b),
                          cb_icon := map_option trim (cb_icon b)\<rparr>"

section \<open>Responses\<close>

text \<open>
  The failures of the routes, named as in the specification where it names them:
  \<^item> \<open>ValidationFailed\<close>: 400 'Validation failed', with the failing fields;
  \<^item> \<open>InvalidCategory\<close>: 400 'Invalid category';
  \<^item> \<open>TaskNotFound\<close>, \<open>CategoryNotFound\<close>: 404 'Task not found', 'Category not found';
  \<^item> \<open>DuplicateName\<close>: 400 'Category name already exists';
  \<^item> \<open>DefaultCategoryProtected\<close>: 400 'Cannot delete default categories';
  \<^item> \<open>CategoryInUse n\<close>: 400 'Cannot delete category with n task(s). ...';
  \<^item> \<open>ServerError\<close>: 500, the catch block of a route.
\<close>

datatype error =
    ValidationFailed "string list"
  | InvalidCategory
  | TaskNotFound
  | CategoryNotFound
  | DuplicateName
  | DefaultCategoryProtected
  | CategoryInUse nat
  | ServerError

fun httpStatus :: "error \<Rightarrow> nat" where
  "httpStatus (ValidationFailed fs) = 400"
| "httpStatus InvalidCategory = 400"
| "httpStatus TaskNotFound = 404"
| "httpStatus CategoryNotFound = 404"
| "httpStatus DuplicateName = 400"
| "httpStatus DefaultCategoryProtected = 400"
| "httpStatus (CategoryInUse n) = 400"
| "httpStatus ServerError = 500"

text \<open>
  \<^verbatim>\<open>populate('categoryId', 'name color')\<close>: the \<^verbatim>\<open>_id\<close>, name and color of the
  category that the task references, where it exists.
\<close>

type_synonym populated = "(oid \<times> string \<times> string) option"

definition populate :: "category list \<Rightarrow> task \<Rightarrow> populated" where
  "populate cs t =
     (case categoryId t of None \<Rightarrow> None
      | Some i \<Rightarrow> map_option (\<lambda>c. (c_id c, name c, color c)) (findOne (\<lambda>c. c_id c = i) cs))"

text \<open>The data of the two statistics routes.\<close>

record taskOverview =
  ts_total :: nat
  ts_completed :: nat
  ts_pending :: nat
  ts_overdue :: nat
  ts_highPriority :: nat
  ts_completionRate :: nat

record categoryOverview =
  cs_total :: nat
  cs_active :: nat
  cs_default :: nat
  cs_withTasks :: nat
  cs_topCategories :: "(oid \<times> string \<times> string \<times> int) list"

text \<open>
  What a successful route sends back: a task with its category populated, the list of
  such tasks, a category, a list of categories, statistics, or only a message.
\<close>

datatype reply =
    TaskReply task populated
  | TaskListReply "(task \<times> populated) list"
  | TaskOverviewReply taskOverview
  | CategoryReply category
  | CategoryListReply "category list"
  | CategoryOverviewReply categoryOverview
  | Done

section \<open>Task routes (routes/tasks.js)\<close>

text \<open>
  The source of routes/tasks.js and of routes/categories.js is the text that follows the
  setup guide in SETUP.md.
  Every route runs behind the auth middleware; \<open>actor\<close> is \<^verbatim>\<open>req.user.userId\<close>. The
  \<^verbatim>\<open>:id\<close> parameter is the ObjectId that the query casts the path segment to. A route
  returns its response and the collections as it leaves them. \<open>newId\<close> is the ObjectId
  generated for a new document, \<open>now\<close> the time at which the route writes to the task
  collection, or reads the clock.

  \<open>truthy\<close> is the JavaScript truth value of a body string. \<open>strictNe\<close> is
  \<^verbatim>\<open>categoryId !== oldCategoryId\<close> as the update route evaluates it: one side is the
  request's string (or \<^verbatim>\<open>undefined\<close>), the other the stored ObjectId object (or
  \<^verbatim>\<open>null\<close>), and values of different types are never strictly equal. Where both
  denote the same id, the route so decrements and increments the same count.

  The category id of a body is a string that passed isMongoId, so it has 24 characters.
  \<open>castObjectId\<close> is the cast of such a string where a query or a document takes it:
  the ObjectId that 24 hexadecimal digits spell, in either case of the letters, and a
  CastError otherwise, which the catch block of the route answers. \<open>givenCategory\<close> is
  \<open>None\<close> for that error and \<open>Some None\<close> where the body names no category.
\<close>

definition truthy :: "string option \<Rightarrow> bool" where
  "truthy v = (case v of None \<Rightarrow> False | Some s \<Rightarrow> s \<noteq> [])"

definition strictNe :: "string option \<Rightarrow> oid option \<Rightarrow> bool" where
  "strictNe requested stored = True"

definition orMedium :: "string option \<Rightarrow> string" where
  "orMedium p = (if truthy p then orEmpty p else ''medium'')"

definition isoDate :: "isoInput option \<Rightarrow> date option" where
  "isoDate v = (case v of Some (ISO8601 d) \<Rightarrow> Some d | _ \<Rightarrow> None)"

definition castObjectId :: "string \<Rightarrow> oid option" where
  "castObjectId s =
     (if length s = 24 \<and> list_all isHexDigit s then Some (map toLower s) else None)"

definition givenCategory :: "string option \<Rightarrow> oid option option" where
  "givenCategory v =
     (if truthy v then map_option Some (castObjectId (orEmpty v)) else Some None)"

definition ownCategoryById :: "oid \<Rightarrow> oid \<Rightarrow> category list \<Rightarrow> category option" where
  "ownCategoryById actor i cs = findOne (\<lambda>c. c_id c = i \<and> c_userId c = actor) cs"

definition ownTask :: "oid \<Rightarrow> oid \<Rightarrow> task list \<Rightarrow> task option" where
  "ownTask actor i ts = findOne (\<lambda>t. t_id t = i \<and> t_userId t = actor) ts"

definition getTask :: "oid \<Rightarrow> oid \<Rightarrow> db \<Rightarrow> (error + reply) \<times> db" where
  "getTask actor i d =
     (case ownTask actor i (tasks d) of
        None \<Rightarrow> (Inl TaskNotFound, d)
      | Some t \<Rightarrow> (Inr (TaskReply t (populate (categories d) t)), d))"

definition createTask :: "oid \<Rightarrow> date \<Rightarrow> oid \<Rightarrow> taskBody \<Rightarrow> db \<Rightarrow> (error + reply) \<times> db" where
  "createTask newId now actor body d =
     (if validateTask body \<noteq> [] then (Inl (ValidationFailed (validateTask body)), d)
      else
        let b = sanitizeTask body in
        case givenCategory (b_categoryId b) of
          None \<Rightarrow> (Inl ServerError, d)
        | Some given \<Rightarrow>
            if (case given of None \<Rightarrow> False
                | Some c \<Rightarrow> ownCategoryById actor c (categories d) = None)
            then (Inl InvalidCategory, d)
            else
              let t = \<lparr>t_id = newId, title = orEmpty (b_title b),
                       t_description = b_description b, completed = False,
                       priority = orMedium (b_priority b), categoryId = given,
                       dueDate = isoDate (b_dueDate b), t_userId = actor,
                       t_createdAt = now, t_updatedAt = now\<rparr>;
                  cs = (case given of None \<Rightarrow> categories d
                        | Some c \<Rightarrow> incTaskCount c 1 (categories d))
              in (Inr (TaskReply t (populate cs t)), \<lparr>tasks = tasks d @ [t], categories = cs\<rparr>))"

text \<open>
  The \<^verbatim>\<open>updateData\<close> of the update route, applied to the stored document by
  \<^verbatim>\<open>findByIdAndUpdate\<close>, which also stamps \<^verbatim>\<open>updatedAt\<close>. \<open>given\<close> is the category id
  of the body after the cast.
\<close>

definition applyTaskUpdate :: "date \<Rightarrow> taskBody \<Rightarrow> oid option \<Rightarrow> task \<Rightarrow> task" where
  "applyTaskUpdate now b given t =
     t\<lparr>title := (case b_title b of None \<Rightarrow> title t | Some x \<Rightarrow> x),
       t_description := (case b_description b of None \<Rightarrow> t_description t | Some x \<Rightarrow> Some x),
       priority := (case b_priority b of None \<Rightarrow> priority t | Some x \<Rightarrow> x),
       categoryId := (case b_categoryId b of None \<Rightarrow> categoryId t | Some x \<Rightarrow> given),
       dueDate := (case b_dueDate b of Some (ISO8601 x) \<Rightarrow> Some x | _ \<Rightarrow> dueDate t),
       t_updatedAt := now\<rparr>"

definition updateTask :: "date \<Rightarrow> oid \<Rightarrow> oid \<Rightarrow> taskBody \<Rightarrow> db \<Rightarrow> (error + reply) \<times> db" where
  "updateTask now actor i body d =
     (if validateTask body \<noteq> [] then (Inl (ValidationFailed (validateTask body)), d)
      else
        let b = sanitizeTask body in
        case ownTask actor i (tasks d) of
          None \<Rightarrow> (Inl TaskNotFound, d)
        | Some task \<Rightarrow>
            let oldCategoryId = categoryId task in
            (case givenCategory (b_categoryId b) of
               None \<Rightarrow> (Inl ServerError, d)
             | Some given \<Rightarrow>
                 if strictNe (b_categoryId b) oldCategoryId
                    \<and> (case given of None \<Rightarrow> False
                        | Some c \<Rightarrow> ownCategoryById actor c (categories d) = None)
                 then (Inl InvalidCategory, d)
                 else
                   let ts = updateOne (\<lambda>t. t_id t = i) (applyTaskUpdate now b given) (tasks d);
                       cs1 = (case oldCategoryId of
                                None \<Rightarrow> categories d
                              | Some old \<Rightarrow>
                                  if strictNe (b_categoryId b) oldCategoryId
                                  then incTaskCount old (- 1) (categories d) else categories d);
                       cs2 = (case given of
                                None \<Rightarrow> cs1
                              | Some c \<Rightarrow>
                                  if strictNe (b_categoryId b) oldCategoryId
                                  then incTaskCount c 1 cs1 else cs1)
                   in (case findOne (\<lambda>t. t_id t = i) ts of
                         None \<Rightarrow> Inr Done
                       | Some u \<Rightarrow> Inr (TaskReply u (populate (categories d) u)),
                       \<lparr>tasks = ts, categories = cs2\<rparr>)))"

text \<open>
  The toggle route loads the document, calls toggleComplete on it and sends the document
  back. The reading \<^verbatim>\<open>new Date()\<close> of the method only reaches the property
  \<^verbatim>\<open>completedAt\<close>, which is neither stored nor sent; it is taken at the instant of
  the save.
\<close>

definition toggleTask :: "date \<Rightarrow> oid \<Rightarrow> oid \<Rightarrow> db \<Rightarrow> (error + reply) \<times> db" where
  "toggleTask now actor i d =
     (case ownTask actor i (tasks d) of
        None \<Rightarrow> (Inl TaskNotFound, d)
      | Some task \<Rightarrow>
          let doc = toggleComplete now now (loaded task);
              ts = updateOne (\<lambda>t. t_id t = i) (saveToggled doc) (tasks d)
          in (Inr (TaskReply (paths doc) (populate (categories d) (paths doc))),
              d\<lparr>tasks := ts\<rparr>))"

definition deleteTask :: "oid \<Rightarrow> oid \<Rightarrow> db \<Rightarrow> (error + reply) \<times> db" where
  "deleteTask actor i d =
     (case ownTask actor i (tasks d) of
        None \<Rightarrow> (Inl TaskNotFound, d)
      | Some task \<Rightarrow>
          let ts = deleteOne (\<lambda>t. t_id t = i) (tasks d);
              cs = (case categoryId task of
                      None \<Rightarrow> categories d
                    | Some c \<Rightarrow> incTaskCount c (- 1) (categories d))
          in (Inr Done, \<lparr>tasks = ts, categories = cs\<rparr>))"

text \<open>
  What a regular expression engine does is a parameter of the model: a \<open>regexp\<close> maps a
  pattern to the matcher of the case-insensitive expression, or to \<open>None\<close> when the
  pattern is rejected.

  The list route, GET /api/tasks. The query parameters completed, priority and search are
  strings, or absent. categoryId and dueDate are \<open>None\<close> when absent or empty, and are
  otherwise given already classified: categoryId as not castable to an ObjectId (the
  query then fails with a CastError), or as the ObjectId; dueDate as an invalid date, or
  as the date that \<^verbatim>\<open>new Date(dueDate)\<close> denotes. \<open>se\<close> is the engine of MongoDB for
  \<^verbatim>\<open>$regex\<close> with the option \<^verbatim>\<open>i\<close>: the matcher tells whether the pattern matches
  somewhere in the string; a rejected pattern fails the query.
\<close>

type_synonym regexp = "string \<Rightarrow> (string \<Rightarrow> bool) option"

datatype idInput = NotObjectId | ObjectId oid

datatype dateInput = InvalidDate | ValidDate date

record taskQuery =
  q_completed :: "string option"
  q_priority :: "string option"
  q_categoryId :: "idInput option"
  q_dueDate :: "dateInput option"
  q_search :: "string option"

definition taskFilter :: "(string \<Rightarrow> bool) option \<Rightarrow> oid \<Rightarrow> taskQuery \<Rightarrow> task \<Rightarrow> bool" where
  "taskFilter search actor q t =
     (t_userId t = actor
      \<and> (case q_completed q of None \<Rightarrow> True | Some c \<Rightarrow> completed t = (c = ''true''))
      \<and> (if truthy (q_priority q) \<and> orEmpty (q_priority q) \<in> set [''low'', ''medium'', ''high'']
         then priority t = orEmpty (q_priority q) else True)
      \<and> (case q_categoryId q of Some (ObjectId c) \<Rightarrow> categoryId t = Some c | _ \<Rightarrow> True)
      \<and> (case q_dueDate q of Some (ValidDate due) \<Rightarrow> dueDate t = Some due | _ \<Rightarrow> True)
      \<and> (case search of
           None \<Rightarrow> True
         | Some matches \<Rightarrow>
             matches (title t)
             \<or> (case t_description t of None \<Rightarrow> False | Some x \<Rightarrow> matches x)))"

definition listTasks :: "regexp \<Rightarrow> oid \<Rightarrow> taskQuery \<Rightarrow> db \<Rightarrow> (error + reply) \<times> db" where
  "listTasks se actor q d =
     (if q_categoryId q = Some NotObjectId then (Inl ServerError, d)
      else
        case (if truthy (q_search q) then map_option Some (se (orEmpty (q_search q)))
              else Some None) of
          None \<Rightarrow> (Inl ServerError, d)
        | Some search \<Rightarrow>
            (Inr (TaskListReply
                    (map (\<lambda>t. (t, populate (categories d) t))
                       (sortBy (\<lambda>a b. t_createdAt b \<le> t_createdAt a)
                          (filter (taskFilter search actor q) (tasks d))))), d))"

text \<open>
  The statistics route, GET /api/tasks/stats/overview; \<open>now\<close> is \<^verbatim>\<open>new Date()\<close> of the
  overdue count. \<open>percent c t\<close> is \<^verbatim>\<open>Math.round((c / t) * 100)\<close> as the floating-point
  arithmetic of JavaScript computes it, a parameter of the model.
\<close>

definition taskStats :: "(nat \<Rightarrow> nat \<Rightarrow> nat) \<Rightarrow> date \<Rightarrow> oid \<Rightarrow> db \<Rightarrow> (error + reply) \<times> db" where
  "taskStats percent now actor d =
     (let totalTasks = countDocuments (\<lambda>t. t_userId t = actor) (tasks d);
          completedTasks = countDocuments (\<lambda>t. t_userId t = actor \<and> completed t) (tasks d);
          pendingTasks = countDocuments (\<lambda>t. t_userId t = actor \<and> \<not> completed t) (tasks d);
          overdueTasks =
            countDocuments
              (\<lambda>t. t_userId t = actor \<and> \<not> completed t
                   \<and> (case dueDate t of None \<Rightarrow> False | Some due \<Rightarrow> due < now)) (tasks d);
          highPriorityTasks =
            countDocuments
              (\<lambda>t. t_userId t = actor \<and> \<not> completed t \<and> priority t = ''high'') (tasks d)
      in (Inr (TaskOverviewReply
                 \<lparr>ts_total = totalTasks, ts_completed = completedTasks,
                  ts_pending = pendingTasks, ts_overdue = overdueTasks,
                  ts_highPriority = highPriorityTasks,
                  ts_completionRate =
                    (if totalTasks > 0 then percent completedTasks totalTasks else 0)\<rparr>), d))"

text \<open>
  taskSchema.statics.findByUser (models/Task.js), which no route calls: the tasks of a
  user that match the options, each with its category populated. The caller passes the
  category as an ObjectId.
\<close>

record findOptions =
  o_completed :: "bool option"
  o_priority :: "string option"
  o_categoryId :: "oid option"
  o_dueDate :: "date option"

definition findByUser :: "oid \<Rightarrow> findOptions \<Rightarrow> db \<Rightarrow> (task \<times> populated) list" where
  "findByUser userId options d =
     map (\<lambda>t. (t, populate (categories d) t))
       (filter
          (\<lambda>t. t_userId t = userId
               \<and> (case o_completed options of None \<Rightarrow> True | Some c \<Rightarrow> completed t = c)
               \<and> (if truthy (o_priority options)
                    then priority t = orEmpty (o_priority options) else True)
               \<and> (case o_categoryId options of None \<Rightarrow> True | Some c \<Rightarrow> categoryId t = Some c)
               \<and> (case o_dueDate options of None \<Rightarrow> True | Some due \<Rightarrow> dueDate t = Some due))
          (tasks d))"

section \<open>Category lookup by name, unique index, default categories (models/Category.js)\<close>

text \<open>
  \<open>findByNameAndUser\<close> builds \<^verbatim>\<open>new RegExp(`^${name}$`, 'i')\<close> from the name as it
  is, and asks for a category of the user whose name the expression matches. The engine
  \<open>re\<close> maps the name to the matcher of the anchored, case-insensitive expression, or to
  \<open>None\<close> when the \<^verbatim>\<open>RegExp\<close> constructor throws a SyntaxError.
\<close>

definition findByNameAndUser ::
  "regexp \<Rightarrow> string \<Rightarrow> oid \<Rightarrow> category list \<Rightarrow> category option option" where
  "findByNameAndUser re nm uid cs =
     (case re nm of
        None \<Rightarrow> None
      | Some matches \<Rightarrow> Some (findOne (\<lambda>c. matches (name c) \<and> c_userId c = uid) cs))"

text \<open>
  categorySchema.pre('save'): \<open>True\<close> when the hook calls \<^verbatim>\<open>next()\<close> without an
  error. A throwing constructor rejects the hook like an error does.
\<close>

definition preSave :: "regexp \<Rightarrow> bool \<Rightarrow> category \<Rightarrow> category list \<Rightarrow> bool" where
  "preSave re nameModified c cs =
     (if nameModified then
        (case findByNameAndUser re (name c) (c_userId c) cs of
           None \<Rightarrow> False
         | Some None \<Rightarrow> True
         | Some (Some existing) \<Rightarrow> c_id existing = c_id c)
      else True)"

text \<open>
  The unique index \<^verbatim>\<open>{ userId: 1, name: 1 }\<close>: \<open>duplicateKey c cs\<close> when a
  document among \<open>cs\<close> has the user of \<open>c\<close> and exactly the name of \<open>c\<close>. An insertion
  tests the collection, an update the other documents of the collection.
\<close>

definition duplicateKey :: "category \<Rightarrow> category list \<Rightarrow> bool" where
  "duplicateKey c cs = list_ex (\<lambda>x. c_userId x = c_userId c \<and> name x = name c) cs"

text \<open>
  \<^verbatim>\<open>insertMany\<close> with the default ordered insertion: the documents are inserted in
  order, and the first one that violates the unique index stops the insertion with a
  duplicate key error; the documents before it stay inserted. The result is the
  collection and whether the insertion failed.
\<close>

fun insertMany :: "category list \<Rightarrow> category list \<Rightarrow> bool \<times> category list" where
  "insertMany [] cs = (False, cs)"
| "insertMany (c # rest) cs =
     (if duplicateKey c cs then (True, cs) else insertMany rest (cs @ [c]))"

definition defaultCategories :: "(string \<times> string \<times> string \<times> int) list" where
  "defaultCategories =
     [(''Work'', ''#3b82f6'', ''briefcase'', 1),
      (''Personal'', ''#10b981'', ''heart'', 2),
      (''Shopping'', ''#f59e0b'', ''cart'', 3),
      (''Health'', ''#ef4444'', ''medical-bag'', 4),
      (''Learning'', ''#8b5cf6'', ''book-open'', 5),
      (''Travel'', ''#06b6d4'', ''airplane'', 6)]"

text \<open>
  categorySchema.statics.createDefaults. \<open>mkId k\<close> is the ObjectId generated for the
  \<open>k\<close>-th document of the batch. The schema defaults fill isActive and taskCount.
\<close>

definition defaultDocs :: "(nat \<Rightarrow> oid) \<Rightarrow> oid \<Rightarrow> category list" where
  "defaultDocs mkId userId =
     map (\<lambda>(k, (n, col, ic, so)).
            \<lparr>c_id = mkId k, name = n, color = col, icon = ic,
             c_description = Some (n @ '' related tasks''), c_userId = userId,
             isDefault = True, isActive = True, taskCount = 0, sortOrder = so\<rparr>)
         (enumerate 0 defaultCategories)"

definition createDefaults :: "(nat \<Rightarrow> oid) \<Rightarrow> oid \<Rightarrow> category list \<Rightarrow> bool \<times> category list" where
  "createDefaults mkId userId cs = insertMany (defaultDocs mkId userId) cs"

text \<open>
  The regular expressions of one fragment of the syntax, on which the engines agree:
  names made of ASCII letters, digits, spaces and punctuation that the syntax does not
  read, and of the quantifiers \<^verbatim>\<open>*\<close>, \<^verbatim>\<open>+\<close> and \<^verbatim>\<open>?\<close> applied to one such
  character. \<open>matchHere p s\<close> is whether \<^verbatim>\<open>^p$\<close> with the flag \<^verbatim>\<open>i\<close> matches the whole
  of \<open>s\<close>; a stored name is trimmed and ends in no line break. \<open>regExpI other\<close> is the
  engine that is \<open>matchHere\<close> on this fragment and \<open>other\<close> on every other name.
\<close>

definition isQuantifier :: "char \<Rightarrow> bool" where
  "isQuantifier c = (c \<in> set ''*+?'')"

definition isAtom :: "char \<Rightarrow> bool" where
  "isAtom c =
     (c \<in> set ''abcdefghijklmnopqrstuvwxyzABCDEFGHIJKLMNOPQRSTUVWXYZ0123456789 !#%&,-/:;<=>@_~'')"

definition matchChar :: "char \<Rightarrow> char \<Rightarrow> bool" where
  "matchChar p x = (toLower p = toLower x)"

fun inFragment :: "string \<Rightarrow> bool" where
  "inFragment [] = True"
| "inFragment [c] = isAtom c"
| "inFragment (c # q # r) =
     (isAtom c \<and> (if isQuantifier q then inFragment r else inFragment (q # r)))"

fun matchHere :: "string \<Rightarrow> string \<Rightarrow> bool" where
  "matchHere [] s = (s = [])"
| "matchHere [c] s = (case s of [x] \<Rightarrow> matchChar c x | _ \<Rightarrow> False)"
| "matchHere (c # q # r) s =
     (if q = CHR ''*'' then
        list_ex (\<lambda>k. list_all (matchChar c) (take k s) \<and> matchHere r (drop k s))
          [0..<Suc (length s)]
      else if q = CHR ''+'' then
        list_ex (\<lambda>k. list_all (matchChar c) (take k s) \<and> matchHere r (drop k s))
          [1..<Suc (length s)]
      else if q = CHR ''?'' then
        (matchHere r s \<or>
         (case s of [] \<Rightarrow> False | x # t \<Rightarrow> matchChar c x \<and> matchHere r t))
      else
        (case s of [] \<Rightarrow> False | x # t \<Rightarrow> matchChar c x \<and> matchHere (q # r) t))"

definition regExpI :: "regexp \<Rightarrow> regexp" where
  "regExpI other p = (if inFragment p then Some (matchHere p) else other p)"

text \<open>The comparison the specification names: equality up to the case of letters.\<close>

definition sameNameIgnoringCase :: "string \<Rightarrow> string \<Rightarrow> bool" where
  "sameNameIgnoringCase a b = (map toLower a = map toLower b)"

text \<open>A name of the fragment without any quantifier.\<close>

definition isPlainName :: "string \<Rightarrow> bool" where
  "isPlainName n = list_all isAtom n"

section \<open>Category routes (routes/categories.js)\<close>

definition getCategory :: "oid \<Rightarrow> oid \<Rightarrow> db \<Rightarrow> (error + reply) \<times> db" where
  "getCategory actor i d =
     (case ownCategoryById actor i (categories d) of
        None \<Rightarrow> (Inl CategoryNotFound, d)
      | Some c \<Rightarrow> (Inr (CategoryReply c), d))"

text \<open>
  \<^verbatim>\<open>Category.findOne({ userId }).sort({ sortOrder: -1 })\<close> and the sort order of the
  new category: one more than the largest of the user's, 0 for the first category.
\<close>

definition nextSortOrder :: "oid \<Rightarrow> category list \<Rightarrow> int" where
  "nextSortOrder actor cs =
     (case filter (\<lambda>c. c_userId c = actor) cs of
        [] \<Rightarrow> 0
      | c # own \<Rightarrow> fold (\<lambda>x m. max (sortOrder x) m) own (sortOrder c) + 1)"

definition orTag :: "string option \<Rightarrow> string" where
  "orTag i = (if truthy i then orEmpty i else ''tag'')"

definition createCategory ::
  "regexp \<Rightarrow> oid \<Rightarrow> oid \<Rightarrow> categoryBody \<Rightarrow> db \<Rightarrow> (error + reply) \<times> db" where
  "createCategory re newId actor body d =
     (if validateCategory body \<noteq> [] then (Inl (ValidationFailed (validateCategory body)), d)
      else
        let b = sanitizeCategory body in
        case findByNameAndUser re (orEmpty (cb_name b)) actor (categories d) of
          None \<Rightarrow> (Inl ServerError, d)
        | Some (Some existing) \<Rightarrow> (Inl DuplicateName, d)
        | Some None \<Rightarrow>
            let c = \<lparr>c_id = newId, name = orEmpty (cb_name b), color = orEmpty (cb_color b),
                     icon = orTag (cb_icon b), c_description = cb_description b,
                     c_userId = actor, isDefault = False, isActive = True, taskCount = 0,
                     sortOrder = nextSortOrder actor (categories d)\<rparr>
            in if \<not> preSave re True c (categories d) \<or> duplicateKey c (categories d)
               then (Inl ServerError, d)
               else (Inr (CategoryReply c), d\<lparr>categories := categories d @ [c]\<rparr>))"

definition applyCategoryUpdate :: "categoryBody \<Rightarrow> category \<Rightarrow> category" where
  "applyCategoryUpdate b c =
     c\<lparr>name := (case cb_name b of None \<Rightarrow> name c | Some x \<Rightarrow> x),
       color := (case cb_color b of None \<Rightarrow> color c | Some x \<Rightarrow> x),
       c_description := (case cb_description b of None \<Rightarrow> c_description c | Some x \<Rightarrow> Some x),
       icon := (case cb_icon b of None \<Rightarrow> icon c | Some x \<Rightarrow> x)\<rparr>"

definition updateCategory ::
  "regexp \<Rightarrow> oid \<Rightarrow> oid \<Rightarrow> categoryBody \<Rightarrow> db \<Rightarrow> (error + reply) \<times> db" where
  "updateCategory re actor i body d =
     (if validateCategory body \<noteq> [] then (Inl (ValidationFailed (validateCategory body)), d)
      else
        let b = sanitizeCategory body in
        (case ownCategoryById actor i (categories d) of
           None \<Rightarrow> (Inl CategoryNotFound, d)
         | Some c \<Rightarrow>
             (case (if truthy (cb_name b) \<and> orEmpty (cb_name b) \<noteq> name c
                    then findByNameAndUser re (orEmpty (cb_name b)) actor (categories d)
                    else Some None) of
                None \<Rightarrow> (Inl ServerError, d)
              | Some (Some existing) \<Rightarrow> (Inl DuplicateName, d)
              | Some None \<Rightarrow>
                  (case findOne (\<lambda>x. c_id x = i) (categories d) of
                     None \<Rightarrow> (Inr Done, d)
                   | Some stored \<Rightarrow>
                       if duplicateKey (applyCategoryUpdate b stored)
                            (deleteOne (\<lambda>x. c_id x = i) (categories d))
                       then (Inl ServerError, d)
                       else (Inr (CategoryReply (applyCategoryUpdate b stored)),
                             d\<lparr>categories :=
                                  updateOne (\<lambda>x. c_id x = i) (applyCategoryUpdate b)
                                    (categories d)\<rparr>)))))"

text \<open>
  The delete route; \<^verbatim>\<open>category.remove()\<close> runs categorySchema.pre('remove'), which
  unsets the category of every task that references it (\<^verbatim>\<open>updateMany\<close>, which
  stamps \<^verbatim>\<open>updatedAt\<close> on these tasks), and then removes the document.
\<close>

definition preRemove :: "date \<Rightarrow> oid \<Rightarrow> task list \<Rightarrow> task list" where
  "preRemove now i ts =
     updateMany (\<lambda>t. categoryId t = Some i) (\<lambda>t. t\<lparr>categoryId := None, t_updatedAt := now\<rparr>) ts"

definition deleteCategory :: "date \<Rightarrow> oid \<Rightarrow> oid \<Rightarrow> db \<Rightarrow> (error + reply) \<times> db" where
  "deleteCategory now actor i d =
     (case ownCategoryById actor i (categories d) of
        None \<Rightarrow> (Inl CategoryNotFound, d)
      | Some c \<Rightarrow>
          if isDefault c then (Inl DefaultCategoryProtected, d)
          else
            let n = countDocuments (\<lambda>t. categoryId t = Some i) (tasks d) in
            if n > 0 then (Inl (CategoryInUse n), d)
            else (Inr Done,
                  \<lparr>tasks = preRemove now (c_id c) (tasks d),
                   categories = deleteOne (\<lambda>x. c_id x = c_id c) (categories d)\<rparr>))"

definition toggleCategory :: "regexp \<Rightarrow> oid \<Rightarrow> oid \<Rightarrow> db \<Rightarrow> (error + reply) \<times> db" where
  "toggleCategory re actor i d =
     (case ownCategoryById actor i (categories d) of
        None \<Rightarrow> (Inl CategoryNotFound, d)
      | Some c \<Rightarrow>
          let u = c\<lparr>isActive := \<not> isActive c\<rparr> in
          if \<not> preSave re False u (categories d) then (Inl ServerError, d)
          else (Inr (CategoryReply u),
                d\<lparr>categories := updateOne (\<lambda>x. c_id x = c_id c)
                                   (\<lambda>x. x\<lparr>isActive := isActive u\<rparr>) (categories d)\<rparr>))"

text \<open>
  The reorder route. The body's \<^verbatim>\<open>sortOrder\<close> is \<open>None\<close> when it is absent or not an
  integer.
\<close>

definition reorderCategory ::
  "regexp \<Rightarrow> oid \<Rightarrow> oid \<Rightarrow> int option \<Rightarrow> db \<Rightarrow> (error + reply) \<times> db" where
  "reorderCategory re actor i so d =
     (case so of
        None \<Rightarrow> (Inl (ValidationFailed [''sortOrder'']), d)
      | Some n \<Rightarrow>
          if n < 0 then (Inl (ValidationFailed [''sortOrder'']), d)
          else
            (case ownCategoryById actor i (categories d) of
               None \<Rightarrow> (Inl CategoryNotFound, d)
             | Some c \<Rightarrow>
                 let u = c\<lparr>sortOrder := n\<rparr> in
                 if \<not> preSave re False u (categories d) then (Inl ServerError, d)
                 else (Inr (CategoryReply u),
                       d\<lparr>categories := updateOne (\<lambda>x. c_id x = c_id c)
                                          (\<lambda>x. x\<lparr>sortOrder := n\<rparr>) (categories d)\<rparr>)))"

text \<open>
  The list route, GET /api/categories, with the query parameters isActive and isDefault
  (strings, or absent), sorted by sortOrder and then by name; MongoDB compares strings
  by their code points. The statistics route, GET /api/categories/stats/overview.
\<close>

fun stringLe :: "string \<Rightarrow> string \<Rightarrow> bool" where
  "stringLe [] ys = True"
| "stringLe (x # xs) [] = False"
| "stringLe (x # xs) (y # ys) =
     ((of_char x :: nat) < of_char y \<or> (x = y \<and> stringLe xs ys))"

record categoryQuery =
  q_isActive :: "string option"
  q_isDefault :: "string option"

definition categoryFilter :: "oid \<Rightarrow> categoryQuery \<Rightarrow> category \<Rightarrow> bool" where
  "categoryFilter actor q c =
     (c_userId c = actor
      \<and> (case q_isActive q of None \<Rightarrow> True | Some a \<Rightarrow> isActive c = (a = ''true''))
      \<and> (case q_isDefault q of None \<Rightarrow> True | Some a \<Rightarrow> isDefault c = (a = ''true'')))"

definition listCategories :: "oid \<Rightarrow> categoryQuery \<Rightarrow> db \<Rightarrow> (error + reply) \<times> db" where
  "listCategories actor q d =
     (Inr (CategoryListReply
             (sortBy (\<lambda>a b. sortOrder a < sortOrder b
                            \<or> (sortOrder a = sortOrder b \<and> stringLe (name a) (name b)))
                (filter (categoryFilter actor q) (categories d)))), d)"

definition categoryStats :: "oid \<Rightarrow> db \<Rightarrow> (error + reply) \<times> db" where
  "categoryStats actor d =
     (let topCategories =
            take 5 (sortBy (\<lambda>a b. taskCount b \<le> taskCount a)
                      (filter (\<lambda>c. c_userId c = actor \<and> taskCount c > 0) (categories d)))
      in (Inr (CategoryOverviewReply
                 \<lparr>cs_total = countDocuments (\<lambda>c. c_userId c = actor) (categories d),
                  cs_active =
                    countDocuments (\<lambda>c. c_userId c = actor \<and> isActive c) (categories d),
                  cs_default =
                    countDocuments (\<lambda>c. c_userId c = actor \<and> isDefault c) (categories d),
                  cs_withTasks =
                    countDocuments (\<lambda>c. c_userId c = actor \<and> taskCount c > 0) (categories d),
                  cs_topCategories =
                    map (\<lambda>c. (c_id c, name c, color c, taskCount c)) topCategories\<rparr>), d))"

section \<open>The mock backend (server-mock.js)\<close>

text \<open>
  The mock server keeps three arrays and a counter in memory. Its routes read no
  Authorization header and take no acting user. A task is a JavaScript object that the
  update route merges with the request body, so tasks are maps from property names to
  values; users and categories are only built by the server and are records. Numbers are
  integers here.
\<close>

datatype jsval =
    Undefined | Null | Bool bool | Num int | Str string | Date date
  | Arr "jsval list" | Obj "(string \<times> jsval) list"

type_synonym jsobj = "string \<rightharpoonup> jsval"

definition getProp :: "jsobj \<Rightarrow> string \<Rightarrow> jsval" where
  "getProp ob k = (case ob k of None \<Rightarrow> Undefined | Some v \<Rightarrow> v)"


record muser =
  u_id :: string
  email :: string
  username :: string
  u_createdAt :: date
  u_updatedAt :: date

record mcategory =
  mc_id :: string
  mc_name :: string
  mc_color :: string
  mc_userId :: string
  mc_createdAt :: date
  mc_updatedAt :: date

record mock =
  m_users :: "muser list"
  m_tasks :: "jsobj list"
  m_categories :: "mcategory list"
  nextId :: nat

text \<open>Decimal notation, for \<^verbatim>\<open>(nextId++).toString()\<close> and for string concatenation.\<close>

definition digitChar :: "nat \<Rightarrow> char" where
  "digitChar n = ''0123456789'' ! n"

fun toString :: "nat \<Rightarrow> string" where
  "toString n =
     (if n < 10 then [digitChar n] else toString (n div 10) @ [digitChar (n mod 10)])"

declare toString.simps [simp del]

definition showInt :: "int \<Rightarrow> string" where
  "showInt i = (if i < 0 then CHR ''-'' # toString (nat (- i)) else toString (nat i))"

definition generateId :: "mock \<Rightarrow> string \<times> mock" where
  "generateId st = (toString (nextId st), st\<lparr>nextId := nextId st + 1\<rparr>)"

text \<open>
  initializeMockData, run once when the server starts at time \<open>t0\<close> on the empty arrays
  with the counter at 1.
\<close>

definition initializeMockData :: "date \<Rightarrow> mock" where
  "initializeMockData t0 =
     \<lparr>m_users = [\<lparr>u_id = ''1'', email = ''demo@example.com'', username = ''demo'',
                   u_createdAt = t0, u_updatedAt = t0\<rparr>],
      m_tasks = [[''id'' \<mapsto> Str (toString 4),
                  ''title'' \<mapsto> Str ''Welcome to TodoApp!'',
                  ''description'' \<mapsto>
                     Str ''This is your first task. Tap to edit or mark as complete.'',
                  ''completed'' \<mapsto> Bool False,
                  ''categoryId'' \<mapsto> Str (toString 1),
                  ''dueDate'' \<mapsto> Date (t0 + 7 * 24 * 60 * 60 * 1000),
                  ''priority'' \<mapsto> Str ''medium'',
                  ''createdAt'' \<mapsto> Date t0,
                  ''updatedAt'' \<mapsto> Date t0,
                  ''userId'' \<mapsto> Str ''1'']],
      m_categories =
        [\<lparr>mc_id = toString 1, mc_name = ''Work'', mc_color = ''#3b82f6'', mc_userId = ''1'',
          mc_createdAt = t0, mc_updatedAt = t0\<rparr>,
         \<lparr>mc_id = toString 2, mc_name = ''Personal'', mc_color = ''#10b981'', mc_userId = ''1'',
          mc_createdAt = t0, mc_updatedAt = t0\<rparr>,
         \<lparr>mc_id = toString 3, mc_name = ''Shopping'', mc_color = ''#f59e0b'', mc_userId = ''1'',
          mc_createdAt = t0, mc_updatedAt = t0\<rparr>],
      nextId = 5\<rparr>"

datatype mockError =
    FieldsRequired
  | UserExists
  | CredentialsRequired
  | InvalidCredentials
  | MockTaskNotFound

fun mockStatus :: "mockError \<Rightarrow> nat" where
  "mockStatus FieldsRequired = 400"
| "mockStatus UserExists = 400"
| "mockStatus CredentialsRequired = 400"
| "mockStatus InvalidCredentials = 400"
| "mockStatus MockTaskNotFound = 404"

datatype mockReply =
    AuthReply muser string
  | TaskObject jsobj
  | TaskList "jsobj list"
  | MockDone

text \<open>
  POST /api/auth/register and POST /api/auth/login. The body fields are strings, or
  absent; \<open>now\<close> is \<^verbatim>\<open>Date.now()\<close> and the time of \<^verbatim>\<open>new Date()\<close>.
\<close>

definition mockToken :: "date \<Rightarrow> string" where
  "mockToken now = ''mock-jwt-token-'' @ showInt now"

definition mockRegister ::
  "date \<Rightarrow> string option \<Rightarrow> string option \<Rightarrow> string option \<Rightarrow> mock
     \<Rightarrow> (mockError + mockReply) \<times> mock" where
  "mockRegister now em un pw st =
     (if \<not> truthy em \<or> \<not> truthy un \<or> \<not> truthy pw then (Inl FieldsRequired, st)
      else
        case find (\<lambda>u. email u = orEmpty em) (m_users st) of
          Some existingUser \<Rightarrow> (Inl UserExists, st)
        | None \<Rightarrow>
            let (i, st1) = generateId st;
                newUser = \<lparr>u_id = i, email = orEmpty em, username = orEmpty un,
                           u_createdAt = now, u_updatedAt = now\<rparr>
            in (Inr (AuthReply newUser (mockToken now)),
                st1\<lparr>m_users := m_users st1 @ [newUser]\<rparr>))"


text \<open>
  The task routes. \<^verbatim>\<open>t.id === id\<close> compares the property with the string of the path.
\<close>

fun findIndex :: "('a \<Rightarrow> bool) \<Rightarrow> 'a list \<Rightarrow> nat option" where
  "findIndex P [] = None"
| "findIndex P (x # xs) = (if P x then Some 0 else map_option Suc (findIndex P xs))"

definition hasId :: "string \<Rightarrow> jsobj \<Rightarrow> bool" where
  "hasId i t = (getProp t ''id'' = Str i)"

definition mockGetTasks :: "mock \<Rightarrow> (mockError + mockReply) \<times> mock" where
  "mockGetTasks st = (Inr (TaskList (m_tasks st)), st)"

definition mergeTask :: "date \<Rightarrow> jsobj \<Rightarrow> jsobj \<Rightarrow> jsobj" where
  "mergeTask now old updates = (old ++ updates)(''updatedAt'' \<mapsto> Date now)"

definition mockPutTask :: "date \<Rightarrow> string \<Rightarrow> jsobj \<Rightarrow> mock \<Rightarrow> (mockError + mockReply) \<times> mock" where
  "mockPutTask now i updates st =
     (case findIndex (hasId i) (m_tasks st) of
        None \<Rightarrow> (Inl MockTaskNotFound, st)
      | Some k \<Rightarrow>
          let merged = mergeTask now (m_tasks st ! k) updates
          in (Inr (TaskObject merged), st\<lparr>m_tasks := (m_tasks st)[k := merged]\<rparr>))"

definition mockDeleteTask :: "string \<Rightarrow> mock \<Rightarrow> (mockError + mockReply) \<times> mock" where
  "mockDeleteTask i st =
     (case findIndex (hasId i) (m_tasks st) of
        None \<Rightarrow> (Inl MockTaskNotFound, st)
      | Some k \<Rightarrow>
          (Inr MockDone, st\<lparr>m_tasks := take k (m_tasks st) @ drop (Suc k) (m_tasks st)\<rparr>))"


section \<open>Requests of the database-backed routes\<close>

text \<open>
  The routes of routes/tasks.js and routes/categories.js as one function of the request.
  \<open>library\<close> holds what the model takes from outside: the regular expression engine of
  the name lookup, the engine of the search, and the rounded percentage.
\<close>

record library =
  nameRegExp :: regexp
  searchRegExp :: regexp
  percent :: "nat \<Rightarrow> nat \<Rightarrow> nat"

datatype request =
    ListTasks taskQuery
  | GetTask oid
  | CreateTask oid taskBody
  | UpdateTask oid taskBody
  | ToggleTask oid
  | DeleteTask oid
  | TaskStats
  | ListCategories categoryQuery
  | GetCategory oid
  | CreateCategory oid categoryBody
  | UpdateCategory oid categoryBody
  | DeleteCategory oid
  | ToggleCategory oid
  | ReorderCategory oid "int option"
  | CategoryStats

fun handle :: "library \<Rightarrow> date \<Rightarrow> oid \<Rightarrow> request \<Rightarrow> db \<Rightarrow> (error + reply) \<times> db" where
  "handle lib now actor (ListTasks q) d = listTasks (searchRegExp lib) actor q d"
| "handle lib now actor (GetTask i) d = getTask actor i d"
| "handle lib now actor (CreateTask newId b) d = createTask newId now actor b d"
| "handle lib now actor (UpdateTask i b) d = updateTask now actor i b d"
| "handle lib now actor (ToggleTask i) d = toggleTask now actor i d"
| "handle lib now actor (DeleteTask i) d = deleteTask actor i d"
| "handle lib now actor TaskStats d = taskStats (percent lib) now actor d"
| "handle lib now actor (ListCategories q) d = listCategories actor q d"
| "handle lib now actor (GetCategory i) d = getCategory actor i d"
| "handle lib now actor (CreateCategory newId b) d = createCategory (nameRegExp lib) newId actor b d"
| "handle lib now actor (UpdateCategory i b) d = updateCategory (nameRegExp lib) actor i b d"
| "handle lib now actor (DeleteCategory i) d = deleteCategory now actor i d"
| "handle lib now actor (ToggleCategory i) d = toggleCategory (nameRegExp lib) actor i d"
| "handle lib now actor (ReorderCategory i so) d = reorderCategory (nameRegExp lib) actor i so d"
| "handle lib now actor CategoryStats d = categoryStats actor d"

text \<open>The \<^verbatim>\<open>:id\<close> of a by-id route, and the fields of the request that fail validation.\<close>

fun taskTarget :: "request \<Rightarrow> oid option" where
  "taskTarget (GetTask i) = Some i"
| "taskTarget (UpdateTask i b) = Some i"
| "taskTarget (ToggleTask i) = Some i"
| "taskTarget (DeleteTask i) = Some i"
| "taskTarget r = None"

fun categoryTarget :: "request \<Rightarrow> oid option" where
  "categoryTarget (GetCategory i) = Some i"
| "categoryTarget (UpdateCategory i b) = Some i"
| "categoryTarget (DeleteCategory i) = Some i"
| "categoryTarget (ToggleCategory i) = Some i"
| "categoryTarget (ReorderCategory i so) = Some i"
| "categoryTarget r = None"

fun validationErrors :: "request \<Rightarrow> string list" where
  "validationErrors (CreateTask newId b) = validateTask b"
| "validationErrors (UpdateTask i b) = validateTask b"
| "validationErrors (CreateCategory newId b) = validateCategory b"
| "validationErrors (UpdateCategory i b) = validateCategory b"
| "validationErrors (ReorderCategory i so) =
     (case so of None \<Rightarrow> [''sortOrder''] | Some n \<Rightarrow> if n < 0 then [''sortOrder''] else [])"
| "validationErrors r = []"

text \<open>
  The state of a MongoDB database that the routes maintain: \<^verbatim>\<open>_id\<close> is unique in each
  collection, and a category that a task references belongs to the owner of the task.
\<close>

definition consistent :: "db \<Rightarrow> bool" where
  "consistent d =
     (distinct (map t_id (tasks d)) \<and> distinct (map c_id (categories d))
      \<and> list_all (\<lambda>t. list_all (\<lambda>c. categoryId t \<noteq> Some (c_id c) \<or> c_userId c = t_userId t)
                         (categories d)) (tasks d))"

text \<open>
  The rows of a user: the database as it would be if no other user had any task or
  category.
\<close>

definition ownRows :: "oid \<Rightarrow> db \<Rightarrow> db" where
  "ownRows actor d =
     \<lparr>tasks = filter (\<lambda>t. t_userId t = actor) (tasks d),
      categories = filter (\<lambda>c. c_userId c = actor) (categories d)\<rparr>"

definition foreignTaskNotFound :: "library \<Rightarrow> date \<Rightarrow> oid \<Rightarrow> request \<Rightarrow> db \<Rightarrow> task \<Rightarrow> bool" where
  "foreignTaskNotFound lib now actor r d t =
     (handle lib now actor r d =
        (Inl (if validationErrors r = [] then TaskNotFound
              else ValidationFailed (validationErrors r)), d)
      \<and> fst (handle lib now actor r (d\<lparr>tasks := filter (\<lambda>x. t_id x \<noteq> t_id t) (tasks d)\<rparr>))
          = fst (handle lib now actor r d))"

definition foreignCategoryNotFound ::
  "library \<Rightarrow> date \<Rightarrow> oid \<Rightarrow> request \<Rightarrow> db \<Rightarrow> category \<Rightarrow> bool" where
  "foreignCategoryNotFound lib now actor r d c =
     (handle lib now actor r d =
        (Inl (if validationErrors r = [] then CategoryNotFound
              else ValidationFailed (validationErrors r)), d)
      \<and> fst (handle lib now actor r
               (d\<lparr>categories := filter (\<lambda>x. c_id x \<noteq> c_id c) (categories d)\<rparr>))
          = fst (handle lib now actor r d))"

definition othersUntouched :: "oid \<Rightarrow> db \<Rightarrow> db \<Rightarrow> bool" where
  "othersUntouched actor d d' =
     (filter (\<lambda>t. t_userId t \<noteq> actor) (tasks d') = filter (\<lambda>t. t_userId t \<noteq> actor) (tasks d)
      \<and> filter (\<lambda>c. c_userId c \<noteq> actor) (categories d')
          = filter (\<lambda>c. c_userId c \<noteq> actor) (categories d))"

text \<open>
  Every document in a response is a document of the acting user: a task, a category, and
  the category populated into a task, which is one of the categories of the database as
  the request found it.
\<close>

definition ownPopulated :: "oid \<Rightarrow> db \<Rightarrow> populated \<Rightarrow> bool" where
  "ownPopulated actor d p =
     (case p of
        None \<Rightarrow> True
      | Some (i, n, col) \<Rightarrow>
          list_ex (\<lambda>c. c_id c = i \<and> name c = n \<and> color c = col \<and> c_userId c = actor)
            (categories d))"

fun ownReply :: "oid \<Rightarrow> db \<Rightarrow> error + reply \<Rightarrow> bool" where
  "ownReply actor d (Inr (TaskReply t p)) = (t_userId t = actor \<and> ownPopulated actor d p)"
| "ownReply actor d (Inr (TaskListReply ts)) =
     list_all (\<lambda>(t, p). t \<in> set (tasks d) \<and> t_userId t = actor \<and> ownPopulated actor d p) ts"
| "ownReply actor d (Inr (CategoryReply c)) = (c_userId c = actor)"
| "ownReply actor d (Inr (CategoryListReply cs)) =
     list_all (\<lambda>c. c \<in> set (categories d) \<and> c_userId c = actor) cs"
| "ownReply actor d (Inr (CategoryOverviewReply ov)) =
     list_all (\<lambda>(i, n, col, k).
                 list_ex (\<lambda>c. c_id c = i \<and> name c = n \<and> color c = col \<and> taskCount c = k
                              \<and> c_userId c = actor) (categories d))
       (cs_topCategories ov)"
| "ownReply actor d r = True"

section \<open>Documents and requests used in the evaluations\<close>

definition alice :: oid where
  "alice = ''64b0000000000000000000a1''"

definition bob :: oid where
  "bob = ''64b0000000000000000000b2''"

definition errandsId :: oid where
  "errandsId = ''64c0000000000000000000e1''"

definition milkId :: oid where
  "milkId = ''64d000000000000000000071''"

definition errands :: category where
  "errands = \<lparr>c_id = errandsId, name = ''Errands'', color = ''#3b82f6'', icon = ''tag'',
               c_description = None, c_userId = alice, isDefault = False, isActive = True,
               taskCount = 0, sortOrder = 0\<rparr>"

definition milk :: task where
  "milk = \<lparr>t_id = milkId, title = ''Buy milk'', t_description = None, completed = False,
            priority = ''medium'', categoryId = Some errandsId, dueDate = None,
            t_userId = alice, t_createdAt = 1000, t_updatedAt = 1000\<rparr>"

definition dbErrands :: db where
  "dbErrands = \<lparr>tasks = [], categories = [errands]\<rparr>"

definition milkBody :: taskBody where
  "milkBody = \<lparr>b_title = Some ''Buy milk'', b_description = None, b_priority = None,
                b_categoryId = Some errandsId, b_dueDate = None\<rparr>"

definition retitleBody :: taskBody where
  "retitleBody = \<lparr>b_title = Some ''Buy oat milk'', b_description = None, b_priority = None,
                   b_categoryId = None, b_dueDate = None\<rparr>"


definition dbStale :: db where
  "dbStale = snd (updateTask 2000 alice milkId retitleBody
                   (snd (createTask milkId 1000 alice milkBody dbErrands)))"

definition mockStart :: mock where
  "mockStart = initializeMockData 0"

definition seedIdsA :: "nat \<Rightarrow> oid" where
  "seedIdsA k = ''64e00000000000000000000'' @ toString k"

definition seedIdsB :: "nat \<Rightarrow> oid" where
  "seedIdsB k = ''64f00000000000000000000'' @ toString k"

definition overwriteBody :: jsobj where
  "overwriteBody = [''id'' \<mapsto> Str ''999'', ''userId'' \<mapsto> Str ''5'',
                    ''completed'' \<mapsto> Str ''yes'', ''createdAt'' \<mapsto> Null,
                    ''updatedAt'' \<mapsto> Str ''never'']"

definition annRegistered :: mock where
  "annRegistered =
     snd (mockRegister 5000 (Some ''ann@example.com'') (Some ''ann'') (Some ''secret1'') mockStart)"

definition laterId :: oid where
  "laterId = ''64c0000000000000000000f1''"

definition laterUpperId :: oid where
  "laterUpperId = ''64c0000000000000000000f2''"

definition later :: category where
  "later = \<lparr>c_id = laterId, name = ''Later?'', color = ''#10b981'', icon = ''tag'',
             c_description = None, c_userId = alice, isDefault = False, isActive = True,
             taskCount = 0, sortOrder = 0\<rparr>"

definition laterUpper :: category where
  "laterUpper = \<lparr>c_id = laterUpperId, name = ''LATER?'', color = ''#10b981'', icon = ''tag'',
                  c_description = None, c_userId = alice, isDefault = False, isActive = True,
                  taskCount = 0, sortOrder = 1\<rparr>"

definition namedBody :: "string \<Rightarrow> categoryBody" where
  "namedBody n = \<lparr>cb_name = Some n, cb_color = Some ''#10b981'', cb_description = None,
                  cb_icon = None\<rparr>"

definition walkId :: oid where
  "walkId = ''64d000000000000000000072''"

definition walk :: task where
  "walk = \<lparr>t_id = walkId, title = ''Walk the dog'', t_description = None, completed = False,
            priority = ''low'', categoryId = None, dueDate = None, t_userId = bob,
            t_createdAt = 1500, t_updatedAt = 1500\<rparr>"

definition sharedDb :: db where
  "sharedDb = \<lparr>tasks = [milk, walk], categories = [errands\<lparr>taskCount := 1\<rparr>]\<rparr>"

definition noOptions :: findOptions where
  "noOptions = \<lparr>o_completed = None, o_priority = None, o_categoryId = None, o_dueDate = None\<rparr>"

definition noQuery :: taskQuery where
  "noQuery = \<lparr>q_completed = None, q_priority = None, q_categoryId = None, q_dueDate = None,
               q_search = None\<rparr>"

text \<open>The id of the category Errands spelled with capital letters, in a body.\<close>

definition upperBody :: taskBody where
  "upperBody = milkBody\<lparr>b_categoryId := Some ''64C0000000000000000000E1''\<rparr>"

text \<open>
  A stand-in library for the evaluations, which call neither the search engine nor the
  percentage: the name engine is the one of the fragment.
\<close>

definition plainLibrary :: library where
  "plainLibrary = \<lparr>nameRegExp = regExpI (\<lambda>p. None), searchRegExp = (\<lambda>p. None),
                     percent = (\<lambda>c t. (100 * c) div t)\<rparr>"

text \<open>
  The ids that a create request brings must be new: the id of a new task is the id of no
  task, the id of a new category is the id of no category and is referenced by no task.
\<close>

fun freshFor :: "request \<Rightarrow> db \<Rightarrow> bool" where
  "freshFor (CreateTask newId b) d = (newId \<notin> set (map t_id (tasks d)))"
| "freshFor (CreateCategory newId b) d =
     (newId \<notin> set (map c_id (categories d)) \<and> list_all (\<lambda>t. categoryId t \<noteq> Some newId) (tasks d))"
| "freshFor r d = True"

section \<open>Derived status\<close>

text \<open>
  C5. The derived status of a task is "completed" when completed is true; otherwise it is
  "overdue" exactly when the task has a due date earlier than now; otherwise "due-soon"
  exactly when it has a due date less than 24 hours after now; otherwise "pending".
\<close>

theorem C5_status_cases:
  "status now t =
     (if completed t then Completed
      else if (\<exists>d. dueDate t = Some d \<and> d < now) then Overdue
      else if (\<exists>d. dueDate t = Some d \<and> d - now < 24 * 60 * 60 * 1000) then DueSoon
      else Pending)
   \<and> (status now t = Overdue \<longleftrightarrow> (completed t = False \<and> (\<exists>d. dueDate t = Some d \<and> d < now)))
   \<and> (status now t = DueSoon \<longleftrightarrow>
        (completed t = False \<and> (\<exists>d. dueDate t = Some d \<and> now \<le> d \<and> d - now < 24 * 60 * 60 * 1000)))"
  by (cases "dueDate t") (auto simp: status_def status_at_def dayMs_def)

section \<open>Evaluation of the routes on concrete requests\<close>

lemmas example_defs =
  alice_def bob_def errandsId_def milkId_def errands_def milk_def dbErrands_def milkBody_def
  retitleBody_def

lemmas validation_defs =
  validateTask_def sanitizeTask_def validateCategory_def sanitizeCategory_def trim_def
  isSpace_def orEmpty_def isMongoId_def isHexadecimal_def isHexDigit_def isHexColor_def
  truthy_def castObjectId_def givenCategory_def

lemmas query_defs =
  findOne_def ownTask_def ownCategoryById_def incTaskCount_def populate_def
  countDocuments_def orMedium_def orTag_def isoDate_def strictNe_def

lemma create_milk:
  "createTask milkId 1000 alice milkBody dbErrands =
     (Inr (TaskReply milk (Some (errandsId, ''Errands'', ''#3b82f6''))),
      \<lparr>tasks = [milk], categories = [errands\<lparr>taskCount := 1\<rparr>]\<rparr>)"
  by (simp add: createTask_def example_defs validation_defs toLower_def query_defs Let_def)

lemma retitle_milk:
  "updateTask now alice milkId retitleBody
     \<lparr>tasks = [milk\<lparr>title := ttl, t_updatedAt := u\<rparr>],
      categories = [errands\<lparr>taskCount := n\<rparr>]\<rparr> =
     (Inr (TaskReply (milk\<lparr>title := ''Buy oat milk'', t_updatedAt := now\<rparr>)
             (Some (errandsId, ''Errands'', ''#3b82f6''))),
      \<lparr>tasks = [milk\<lparr>title := ''Buy oat milk'', t_updatedAt := now\<rparr>],
       categories = [errands\<lparr>taskCount := n - 1\<rparr>]\<rparr>)"
  by (simp add: updateTask_def applyTaskUpdate_def example_defs validation_defs query_defs Let_def)

text \<open>
  C1. The update route decrements the count of the task's category whenever the task has
  one, also when the body names no category and the task therefore keeps its category.
  A task is created in a category and then retitled twice: the stored count goes from 1
  to 0 and then to -1, while one task references the category throughout. The count
  methods of the model, which the routes do not call, would have kept the count:
  decrementTaskCount stops at 0 and updateTaskCount recounts the referencing tasks.
\<close>

theorem C1_update_without_category_drifts:
  "(let d1 = snd (createTask milkId 1000 alice milkBody dbErrands);
        d2 = snd (updateTask 2000 alice milkId retitleBody d1);
        d3 = snd (updateTask 3000 alice milkId retitleBody d2)
    in map taskCount (categories d1) = [1]
       \<and> countDocuments (\<lambda>t. categoryId t = Some errandsId) (tasks d1) = 1
       \<and> map taskCount (categories d2) = [0]
       \<and> countDocuments (\<lambda>t. categoryId t = Some errandsId) (tasks d2) = 1
       \<and> map taskCount (categories d3) = [- 1]
       \<and> countDocuments (\<lambda>t. categoryId t = Some errandsId) (tasks d3) = 1
       \<and> map (taskCount \<circ> decrementTaskCount) (categories d2) = [0]
       \<and> map (taskCount \<circ> updateTaskCount (tasks d3)) (categories d3) = [1])"
proof -
  have d1: "snd (createTask milkId 1000 alice milkBody dbErrands) =
              \<lparr>tasks = [milk\<lparr>title := ''Buy milk'', t_updatedAt := 1000\<rparr>],
               categories = [errands\<lparr>taskCount := 1\<rparr>]\<rparr>"
    by (simp add: create_milk) (simp add: milk_def)
  show ?thesis
    unfolding Let_def d1 retitle_milk snd_conv
    by (simp add: countDocuments_def decrementTaskCount_def updateTaskCount_def milk_def
          errands_def)
qed

lemma dbStale_eq:
  "dbStale = \<lparr>tasks = [milk\<lparr>title := ''Buy oat milk'', t_updatedAt := 2000\<rparr>],
              categories = [errands\<lparr>taskCount := 0\<rparr>]\<rparr>"
proof -
  have "snd (createTask milkId 1000 alice milkBody dbErrands) =
          \<lparr>tasks = [milk\<lparr>title := ''Buy milk'', t_updatedAt := 1000\<rparr>],
           categories = [errands\<lparr>taskCount := 1\<rparr>]\<rparr>"
    by (simp add: create_milk) (simp add: milk_def)
  then show ?thesis
    unfolding dbStale_def by (simp add: retitle_milk)
qed

section \<open>Deleting a category\<close>

lemma findOne_Some_holds: "findOne P xs = Some x \<Longrightarrow> P x \<and> x \<in> set xs"
  by (auto simp: findOne_def find_Some_iff)

lemma findOne_None_iff: "(findOne P xs = None) = (\<forall>x\<in>set xs. \<not> P x)"
  by (auto simp: findOne_def find_None_iff)

lemma updateMany_none: "filter P xs = [] \<Longrightarrow> updateMany P f xs = xs"
  by (induction xs) (auto simp: updateMany_def split: if_splits)

lemma set_deleteOne_distinct:
  "distinct (map k xs) \<Longrightarrow> x \<in> set xs \<Longrightarrow>
   set (deleteOne (\<lambda>y. k y = k x) xs) = set xs - {x}"
proof (induction xs)
  case Nil
  then show ?case by simp
next
  case (Cons a xs)
  show ?case
  proof (cases "k a = k x")
    case True
    with Cons.prems have "a = x" by (auto simp: image_iff)
    with Cons.prems show ?thesis by auto
  next
    case False
    with Cons show ?thesis by auto
  qed
qed

text \<open>
  C3, as stated, on the collections that the requests of C1 leave behind: the category
  is not a default category and its stored taskCount is 0, and the delete route still
  answers CategoryInUse, because it counts the tasks that reference the category.
\<close>

theorem C3_stale_count_counterexample:
  "map taskCount (categories dbStale) = [0]
   \<and> map isDefault (categories dbStale) = [False]
   \<and> map c_userId (categories dbStale) = [alice]
   \<and> deleteCategory 4000 alice errandsId dbStale = (Inl (CategoryInUse 1), dbStale)"
  unfolding dbStale_eq
  by (simp add: deleteCategory_def example_defs query_defs)

text \<open>
  C3, amended. For a category of the acting user that is not a default category, the
  delete route decides on the number of tasks that reference the category at that
  moment, not on the stored taskCount: if at least one task references it, the route
  fails with CategoryInUse and leaves every task and every category as they were; if
  none does, the route succeeds, removes the category document and leaves the tasks and
  the other categories as they were.
\<close>

theorem C3_delete_category:
  assumes own: "ownCategoryById actor i (categories d) = Some c"
    and nd: "\<not> isDefault c"
  shows "(if countDocuments (\<lambda>t. categoryId t = Some i) (tasks d) > 0
          then deleteCategory now actor i d =
                 (Inl (CategoryInUse (countDocuments (\<lambda>t. categoryId t = Some i) (tasks d))), d)
          else deleteCategory now actor i d =
                 (Inr Done, \<lparr>tasks = tasks d,
                             categories = deleteOne (\<lambda>x. c_id x = i) (categories d)\<rparr>)
               \<and> (distinct (map c_id (categories d)) \<longrightarrow>
                    set (deleteOne (\<lambda>x. c_id x = i) (categories d)) = set (categories d) - {c}))"
proof -
  from own have ci: "c_id c = i" and cin: "c \<in> set (categories d)"
    using findOne_Some_holds[of "\<lambda>c. c_id c = i \<and> c_userId c = actor" "categories d" c]
    by (auto simp: ownCategoryById_def)
  show ?thesis
  proof (cases "countDocuments (\<lambda>t. categoryId t = Some i) (tasks d) > 0")
    case True
    then show ?thesis
      using own nd by (simp add: deleteCategory_def Let_def)
  next
    case False
    then have none: "filter (\<lambda>t. categoryId t = Some i) (tasks d) = []"
      by (simp add: countDocuments_def)
    have del: "deleteCategory now actor i d =
                 (Inr Done, \<lparr>tasks = tasks d,
                             categories = deleteOne (\<lambda>x. c_id x = i) (categories d)\<rparr>)"
      using own nd False none ci
      by (simp add: deleteCategory_def Let_def preRemove_def updateMany_none)
    have "distinct (map c_id (categories d)) \<Longrightarrow>
            set (deleteOne (\<lambda>x. c_id x = i) (categories d)) = set (categories d) - {c}"
      using set_deleteOne_distinct[of c_id "categories d" c] cin ci by simp
    with del False show ?thesis by simp
  qed
qed

theorem C3_delete_category_witness:
  "ownCategoryById alice errandsId (categories dbErrands) = Some errands
   \<and> \<not> isDefault errands
   \<and> distinct (map c_id (categories dbErrands))
   \<and> deleteCategory 4000 alice errandsId dbErrands = (Inr Done, \<lparr>tasks = [], categories = []\<rparr>)
   \<and> set (deleteOne (\<lambda>x. c_id x = errandsId) (categories dbErrands)) = {}
   \<and> ownCategoryById alice errandsId (categories sharedDb) = Some (errands\<lparr>taskCount := 1\<rparr>)
   \<and> deleteCategory 4000 alice errandsId sharedDb = (Inl (CategoryInUse 1), sharedDb)"
proof -
  have own: "ownCategoryById alice errandsId (categories dbErrands) = Some errands"
    by (simp add: example_defs query_defs)
  have nd: "\<not> isDefault errands"
    by (simp add: errands_def)
  have cnt: "countDocuments (\<lambda>t. categoryId t = Some errandsId) (tasks dbErrands) = 0"
    by (simp add: dbErrands_def countDocuments_def)
  have dist: "distinct (map c_id (categories dbErrands))"
    by (simp add: dbErrands_def)
  have free: "deleteCategory 4000 alice errandsId dbErrands = (Inr Done, \<lparr>tasks = [], categories = []\<rparr>)
              \<and> set (deleteOne (\<lambda>x. c_id x = errandsId) (categories dbErrands)) = {}"
    using C3_delete_category[OF own nd] dist
    by (simp add: cnt) (simp add: dbErrands_def errands_def)
  have own2: "ownCategoryById alice errandsId (categories sharedDb) = Some (errands\<lparr>taskCount := 1\<rparr>)"
    by (simp add: sharedDb_def example_defs query_defs)
  have nd2: "\<not> isDefault (errands\<lparr>taskCount := 1\<rparr>)"
    by (simp add: errands_def)
  have cnt2: "countDocuments (\<lambda>t. categoryId t = Some errandsId) (tasks sharedDb) = 1"
    by (simp add: sharedDb_def walk_def milk_def countDocuments_def)
  have used: "deleteCategory 4000 alice errandsId sharedDb = (Inl (CategoryInUse 1), sharedDb)"
    using C3_delete_category[OF own2 nd2] by (simp add: cnt2)
  show ?thesis
    using own nd dist free own2 used by simp
qed

section \<open>Default categories\<close>

lemma duplicateKey_append:
  "duplicateKey c (xs @ ys) = (duplicateKey c xs \<or> duplicateKey c ys)"
  by (simp add: duplicateKey_def)

lemma duplicateKey_other_user:
  "\<not> list_ex (\<lambda>x. c_userId x = c_userId c) cs \<Longrightarrow> \<not> duplicateKey c cs"
  by (auto simp: duplicateKey_def list_ex_iff)

lemma defaultDocs_eq:
  "defaultDocs mkId u =
     [\<lparr>c_id = mkId 0, name = ''Work'', color = ''#3b82f6'', icon = ''briefcase'',
       c_description = Some ''Work related tasks'', c_userId = u, isDefault = True,
       isActive = True, taskCount = 0, sortOrder = 1\<rparr>,
      \<lparr>c_id = mkId 1, name = ''Personal'', color = ''#10b981'', icon = ''heart'',
       c_description = Some ''Personal related tasks'', c_userId = u, isDefault = True,
       isActive = True, taskCount = 0, sortOrder = 2\<rparr>,
      \<lparr>c_id = mkId 2, name = ''Shopping'', color = ''#f59e0b'', icon = ''cart'',
       c_description = Some ''Shopping related tasks'', c_userId = u, isDefault = True,
       isActive = True, taskCount = 0, sortOrder = 3\<rparr>,
      \<lparr>c_id = mkId 3, name = ''Health'', color = ''#ef4444'', icon = ''medical-bag'',
       c_description = Some ''Health related tasks'', c_userId = u, isDefault = True,
       isActive = True, taskCount = 0, sortOrder = 4\<rparr>,
      \<lparr>c_id = mkId 4, name = ''Learning'', color = ''#8b5cf6'', icon = ''book-open'',
       c_description = Some ''Learning related tasks'', c_userId = u, isDefault = True,
       isActive = True, taskCount = 0, sortOrder = 5\<rparr>,
      \<lparr>c_id = mkId 5, name = ''Travel'', color = ''#06b6d4'', icon = ''airplane'',
       c_description = Some ''Travel related tasks'', c_userId = u, isDefault = True,
       isActive = True, taskCount = 0, sortOrder = 6\<rparr>]"
  by (simp add: defaultDocs_def defaultCategories_def enumerate_eq_zip upt_rec eval_nat_numeral)

lemma insertMany_success: "insertMany ds cs = (False, r) \<Longrightarrow> r = cs @ ds"
proof (induction ds arbitrary: cs)
  case Nil
  then show ?case by simp
next
  case (Cons a ds)
  from Cons.prems have "insertMany ds (cs @ [a]) = (False, r)"
    by (simp split: if_splits)
  then have "r = (cs @ [a]) @ ds"
    by (rule Cons.IH)
  then show ?case by simp
qed

lemma createDefaults_fresh_user:
  assumes "\<not> list_ex (\<lambda>c. c_userId c = u) cs"
  shows "createDefaults mkId u cs = (False, cs @ defaultDocs mkId u)"
proof -
  have no: "\<And>c. c_userId c = u \<Longrightarrow> \<not> duplicateKey c cs"
    using assms duplicateKey_other_user by metis
  show ?thesis
    unfolding createDefaults_def defaultDocs_eq
    by (simp add: duplicateKey_append no) (simp add: duplicateKey_def)
qed

text \<open>
  C8, as stated, on the mock backend: a second user registers on the freshly started
  mock server and gets the id 5; the register route leaves the category array as it was,
  and no category belongs to the new user.
\<close>

theorem C8_mock_register_counterexample:
  "fst (mockRegister 5000 (Some ''ann@example.com'') (Some ''ann'') (Some ''secret1'') mockStart)
     = Inr (AuthReply \<lparr>u_id = ''5'', email = ''ann@example.com'', username = ''ann'',
                        u_createdAt = 5000, u_updatedAt = 5000\<rparr> ''mock-jwt-token-5000'')
   \<and> m_categories (snd (mockRegister 5000 (Some ''ann@example.com'') (Some ''ann'')
                          (Some ''secret1'') mockStart)) = m_categories mockStart
   \<and> filter (\<lambda>c. mc_userId c = ''5'')
        (m_categories (snd (mockRegister 5000 (Some ''ann@example.com'') (Some ''ann'')
                              (Some ''secret1'') mockStart))) = []"
  by (simp add: mockRegister_def mockStart_def initializeMockData_def truthy_def orEmpty_def
        generateId_def mockToken_def showInt_def toString.simps digitChar_def Let_def)

text \<open>
  C8, amended. For a user who has no category yet, Category.createDefaults inserts exactly
  six categories, in this order: Work, Personal, Shopping, Health, Learning and Travel,
  with the colors and icons of the source and the sort orders 1 to 6; each belongs to the
  user, is a default category, is active, has taskCount 0 and the description
  "<name> related tasks". The register route of the mock backend creates no category.
\<close>

theorem C8_createDefaults_seeds_six:
  assumes "\<not> list_ex (\<lambda>c. c_userId c = u) cs"
  shows "createDefaults mkId u cs = (False, cs @ defaultDocs mkId u)
         \<and> map (\<lambda>c. (name c, color c, icon c, sortOrder c)) (defaultDocs mkId u) =
             [(''Work'', ''#3b82f6'', ''briefcase'', 1), (''Personal'', ''#10b981'', ''heart'', 2),
              (''Shopping'', ''#f59e0b'', ''cart'', 3), (''Health'', ''#ef4444'', ''medical-bag'', 4),
              (''Learning'', ''#8b5cf6'', ''book-open'', 5), (''Travel'', ''#06b6d4'', ''airplane'', 6)]
         \<and> list_all (\<lambda>c. isDefault c \<and> c_userId c = u \<and> isActive c \<and> taskCount c = 0
                          \<and> c_description c = Some (name c @ '' related tasks''))
               (defaultDocs mkId u)
         \<and> length (defaultDocs mkId u) = 6
         \<and> m_categories (snd (mockRegister now em un pw st)) = m_categories st"
proof -
  have "m_categories (snd (mockRegister now em un pw st)) = m_categories st"
    by (simp add: mockRegister_def generateId_def Let_def split: option.split)
  then show ?thesis
    using createDefaults_fresh_user[OF assms, of mkId]
    by (simp add: defaultDocs_eq)
qed

theorem C8_createDefaults_seeds_six_witness:
  "\<not> list_ex (\<lambda>c. c_userId c = bob) [errands]
   \<and> map name (snd (createDefaults seedIdsA bob [errands])) =
       [''Errands'', ''Work'', ''Personal'', ''Shopping'', ''Health'', ''Learning'', ''Travel'']
   \<and> fst (createDefaults seedIdsA bob [errands]) = False"
proof -
  have h: "\<not> list_ex (\<lambda>c. c_userId c = bob) [errands]"
    by (simp add: example_defs)
  show ?thesis
    using C8_createDefaults_seeds_six[OF h, of seedIdsA] h
    by (simp add: defaultDocs_eq errands_def)
qed

text \<open>
  C9, as stated: the defaults are created for a user on the empty collection, which
  succeeds, and created again. The second invocation fails.
\<close>

theorem C9_second_seed_fails_counterexample:
  "fst (createDefaults seedIdsA alice []) = False
   \<and> fst (createDefaults seedIdsB alice (snd (createDefaults seedIdsA alice []))) = True"
proof -
  have "createDefaults seedIdsA alice [] = (False, [] @ defaultDocs seedIdsA alice)"
    by (rule createDefaults_fresh_user) simp
  then show ?thesis
    by (simp add: createDefaults_def defaultDocs_eq duplicateKey_def)
qed

text \<open>
  C9, amended. After createDefaults has succeeded for a user, a second invocation for
  that user fails with a duplicate key error on its first document (Work) under the
  unique index on user and name, and leaves the collection unchanged. The same holds
  whenever the user already has a category named exactly Work.
\<close>

theorem C9_second_createDefaults:
  "(fst (createDefaults mk u cs) = False \<longrightarrow>
      createDefaults mk' u (snd (createDefaults mk u cs)) = (True, snd (createDefaults mk u cs)))
   \<and> (list_ex (\<lambda>c. c_userId c = u \<and> name c = ''Work'') cs \<longrightarrow>
      createDefaults mk' u cs = (True, cs))"
proof -
  have work: "list_ex (\<lambda>c. c_userId c = u \<and> name c = ''Work'') xs \<Longrightarrow>
                createDefaults mk' u xs = (True, xs)" for xs
    by (simp add: createDefaults_def defaultDocs_eq duplicateKey_def)
  have "createDefaults mk' u (snd (createDefaults mk u cs)) = (True, snd (createDefaults mk u cs))"
    if ok: "fst (createDefaults mk u cs) = False"
  proof -
    from ok have "createDefaults mk u cs = (False, snd (createDefaults mk u cs))"
      by (metis prod.collapse)
    then have "snd (createDefaults mk u cs) = cs @ defaultDocs mk u"
      unfolding createDefaults_def by (rule insertMany_success)
    then have "list_ex (\<lambda>c. c_userId c = u \<and> name c = ''Work'') (snd (createDefaults mk u cs))"
      by (simp add: defaultDocs_eq)
    then show ?thesis by (rule work)
  qed
  with work show ?thesis by blast
qed

theorem C9_second_createDefaults_witness:
  "fst (createDefaults seedIdsA alice []) = False
   \<and> createDefaults seedIdsB alice (snd (createDefaults seedIdsA alice []))
       = (True, defaultDocs seedIdsA alice)
   \<and> list_ex (\<lambda>c. c_userId c = alice \<and> name c = ''Work'') (defaultDocs seedIdsA alice)
   \<and> createDefaults seedIdsB alice (defaultDocs seedIdsA alice) = (True, defaultDocs seedIdsA alice)"
proof -
  have first: "createDefaults seedIdsA alice [] = (False, defaultDocs seedIdsA alice)"
    using createDefaults_fresh_user[of alice "[]" seedIdsA] by simp
  have has: "list_ex (\<lambda>c. c_userId c = alice \<and> name c = ''Work'') (defaultDocs seedIdsA alice)"
    by (simp add: defaultDocs_eq)
  show ?thesis
    using C9_second_createDefaults[of seedIdsA alice "[]" seedIdsB]
      C9_second_createDefaults[of seedIdsA alice "defaultDocs seedIdsA alice" seedIdsB] first has
    by simp
qed

section \<open>The mock backend: login, ownership, update\<close>

lemmas mock_defs =
  mockStart_def initializeMockData_def truthy_def orEmpty_def generateId_def mockToken_def
  showInt_def toString.simps digitChar_def getProp_def hasId_def Let_def

lemma annRegistered_eq:
  "annRegistered =
     mockStart\<lparr>m_users := m_users mockStart @
                   [\<lparr>u_id = ''5'', email = ''ann@example.com'', username = ''ann'',
                     u_createdAt = 5000, u_updatedAt = 5000\<rparr>],
               nextId := 6\<rparr>"
  by (simp add: annRegistered_def mockRegister_def mock_defs)




text \<open>
  C2, as stated, on the mock backend. The only task of the freshly started mock server
  belongs to user 1. Ann registers and is user 5. No route of the mock server has the
  acting user among its inputs: the request DELETE /api/tasks/4, whoever sends it,
  succeeds and removes the task of user 1, and GET /api/tasks lists it.
\<close>

theorem C2_mock_counterexample:
  "map (\<lambda>t. (getProp t ''id'', getProp t ''userId'')) (m_tasks annRegistered)
     = [(Str ''4'', Str ''1'')]
   \<and> map u_id (m_users annRegistered) = [''1'', ''5'']
   \<and> mockDeleteTask ''4'' annRegistered = (Inr MockDone, annRegistered\<lparr>m_tasks := []\<rparr>)
   \<and> fst (mockGetTasks annRegistered) = Inr (TaskList (m_tasks annRegistered))"
  unfolding annRegistered_eq
  by (simp add: mockDeleteTask_def mockGetTasks_def mock_defs)

lemma findIndex_first:
  "x \<in> set xs \<Longrightarrow> P x \<Longrightarrow>
   \<exists>k. findIndex P xs = Some k \<and> k < length xs \<and> P (xs ! k) \<and> (\<forall>j<k. \<not> P (xs ! j))"
proof (induction xs)
  case Nil
  then show ?case by simp
next
  case (Cons a xs)
  show ?case
  proof (cases "P a")
    case True
    then show ?thesis by simp
  next
    case False
    with Cons.prems have "x \<in> set xs" by auto
    from Cons.IH[OF this Cons.prems(2)] obtain k where
      k: "findIndex P xs = Some k" "k < length xs" "P (xs ! k)" "\<forall>j<k. \<not> P (xs ! j)"
      by blast
    have "\<forall>j<Suc k. \<not> P ((a # xs) ! j)"
      using False k(4) by (auto simp: less_Suc_eq_0_disj)
    with False k show ?thesis by simp
  qed
qed

text \<open>
  C10. In the mock backend, PUT /api/tasks/:id on the id of an existing task replaces the
  first task with that id by the merge of the task and the request body: a field that
  is not in the body, other than updatedAt, keeps its value; a field that is in the body
  takes the value of the body, whatever the field (id, userId, completed and createdAt
  included) and whatever the value; updatedAt is the current time, also when the body
  gives one. Every other task, the users, the categories and the id counter are
  unchanged. The route has no acting user among its inputs and accepts every body.
\<close>

theorem C10_mock_put_shallow_merge:
  assumes "t \<in> set (m_tasks st)" and "hasId i t"
  shows "\<exists>k merged.
           k < length (m_tasks st) \<and> hasId i (m_tasks st ! k)
           \<and> (\<forall>j<k. \<not> hasId i (m_tasks st ! j))
           \<and> mockPutTask now i updates st =
               (Inr (TaskObject merged), st\<lparr>m_tasks := (m_tasks st)[k := merged]\<rparr>)
           \<and> (\<forall>f. f \<notin> dom updates \<and> f \<noteq> ''updatedAt'' \<longrightarrow> merged f = (m_tasks st ! k) f)
           \<and> (\<forall>f. f \<in> dom updates \<and> f \<noteq> ''updatedAt'' \<longrightarrow> merged f = updates f)
           \<and> merged ''updatedAt'' = Some (Date now)
           \<and> (\<forall>j<length (m_tasks st). j \<noteq> k \<longrightarrow> (m_tasks st)[k := merged] ! j = m_tasks st ! j)
           \<and> length ((m_tasks st)[k := merged]) = length (m_tasks st)"
proof -
  from findIndex_first[of t "m_tasks st" "hasId i", OF assms] obtain k where
    k: "findIndex (hasId i) (m_tasks st) = Some k" "k < length (m_tasks st)"
       "hasId i (m_tasks st ! k)" "\<forall>j<k. \<not> hasId i (m_tasks st ! j)"
    by blast
  let ?m = "mergeTask now (m_tasks st ! k) updates"
  have put: "mockPutTask now i updates st =
               (Inr (TaskObject ?m), st\<lparr>m_tasks := (m_tasks st)[k := ?m]\<rparr>)"
    using k(1) by (simp add: mockPutTask_def Let_def)
  have keep: "\<forall>f. f \<notin> dom updates \<and> f \<noteq> ''updatedAt'' \<longrightarrow> ?m f = (m_tasks st ! k) f"
    by (auto simp: mergeTask_def map_add_def split: option.splits)
  have over: "\<forall>f. f \<in> dom updates \<and> f \<noteq> ''updatedAt'' \<longrightarrow> ?m f = updates f"
    by (auto simp: mergeTask_def map_add_def split: option.splits)
  have stamp: "?m ''updatedAt'' = Some (Date now)"
    by (simp add: mergeTask_def)
  have others: "\<forall>j<length (m_tasks st). j \<noteq> k \<longrightarrow> (m_tasks st)[k := ?m] ! j = m_tasks st ! j"
    by simp
  show ?thesis
    using k(2,3,4) put keep over stamp others by (intro exI[of _ k] exI[of _ ?m]) simp
qed

theorem C10_mock_put_shallow_merge_witness:
  "hd (m_tasks mockStart) \<in> set (m_tasks mockStart) \<and> hasId ''4'' (hd (m_tasks mockStart))
   \<and> (\<exists>merged. mockPutTask 7000 ''4'' overwriteBody mockStart =
                   (Inr (TaskObject merged), mockStart\<lparr>m_tasks := [merged]\<rparr>)
        \<and> merged ''id'' = Some (Str ''999'') \<and> merged ''userId'' = Some (Str ''5'')
        \<and> merged ''completed'' = Some (Str ''yes'') \<and> merged ''createdAt'' = Some Null
        \<and> merged ''title'' = Some (Str ''Welcome to TodoApp!'')
        \<and> merged ''updatedAt'' = Some (Date 7000))"
proof -
  have tasks1: "m_tasks mockStart = [hd (m_tasks mockStart)]"
    by (simp add: mockStart_def initializeMockData_def)
  have mem: "hd (m_tasks mockStart) \<in> set (m_tasks mockStart)"
    by (simp add: mockStart_def initializeMockData_def)
  have hid: "hasId ''4'' (hd (m_tasks mockStart))"
    by (simp add: mock_defs)
  have ttl: "hd (m_tasks mockStart) ''title'' = Some (Str ''Welcome to TodoApp!'')"
    by (simp add: mock_defs)
  have dom_b: "dom overwriteBody = {''id'', ''userId'', ''completed'', ''createdAt'', ''updatedAt''}"
    by (auto simp: overwriteBody_def)
  have vals: "overwriteBody ''id'' = Some (Str ''999'')" "overwriteBody ''userId'' = Some (Str ''5'')"
    "overwriteBody ''completed'' = Some (Str ''yes'')" "overwriteBody ''createdAt'' = Some Null"
    by (simp_all add: overwriteBody_def)
  from C10_mock_put_shallow_merge[OF mem hid, of 7000 overwriteBody] obtain k merged where
    r: "k < length (m_tasks mockStart)"
       "mockPutTask 7000 ''4'' overwriteBody mockStart =
          (Inr (TaskObject merged), mockStart\<lparr>m_tasks := (m_tasks mockStart)[k := merged]\<rparr>)"
       "\<forall>f. f \<notin> dom overwriteBody \<and> f \<noteq> ''updatedAt'' \<longrightarrow> merged f = (m_tasks mockStart ! k) f"
       "\<forall>f. f \<in> dom overwriteBody \<and> f \<noteq> ''updatedAt'' \<longrightarrow> merged f = overwriteBody f"
       "merged ''updatedAt'' = Some (Date 7000)"
    by blast
  from r(1) tasks1 have k0: "k = 0"
    by (metis length_Cons less_Suc0 list.size(3))
  have upd: "(m_tasks mockStart)[k := merged] = [merged]"
    using tasks1 k0 by (metis list_update_code(2))
  have old: "m_tasks mockStart ! k = hd (m_tasks mockStart)"
    using tasks1 k0 by (metis nth_Cons_0)
  have "merged ''title'' = Some (Str ''Welcome to TodoApp!'')"
    using r(3) old ttl dom_b by simp
  moreover have "merged ''id'' = Some (Str ''999'')" "merged ''userId'' = Some (Str ''5'')"
    "merged ''completed'' = Some (Str ''yes'')" "merged ''createdAt'' = Some Null"
    using r(4) dom_b vals by simp_all
  ultimately show ?thesis
    using mem hid r(2,5) upd by simp
qed

section \<open>Category names\<close>

lemmas regexp_defs =
  regExpI_def isAtom_def isQuantifier_def matchChar_def toLower_def sameNameIgnoringCase_def

lemma later_pattern:
  "regExpI other ''Later?'' = Some (matchHere ''Later?'')"
  "regExpI other ''LATER?'' = Some (matchHere ''LATER?'')"
  "\<not> matchHere ''LATER?'' ''Later?''"
  "matchHere ''LATER?'' ''late''"
  by (simp_all add: regexp_defs)

lemma errands_pattern:
  "regExpI other ''ERRANDS'' = Some (matchHere ''ERRANDS'')"
  "matchHere ''ERRANDS'' ''Errands''"
  by (simp_all add: regexp_defs)

lemma atom_not_quantifier: "isAtom c \<Longrightarrow> \<not> isQuantifier c"
  by (auto simp: isAtom_def isQuantifier_def)

lemma inFragment_plain: "isPlainName p \<Longrightarrow> inFragment p"
proof (induction p rule: inFragment.induct)
  case 1
  then show ?case by simp
next
  case (2 c)
  then show ?case by (simp add: isPlainName_def)
next
  case (3 c q r)
  from "3.prems" have q: "\<not> isQuantifier q" and c: "isAtom c" and rest: "isPlainName (q # r)"
    by (simp_all add: isPlainName_def atom_not_quantifier)
  with "3.IH"(2) show ?case by simp
qed

lemma matchHere_plain:
  "isPlainName p \<Longrightarrow> matchHere p s = sameNameIgnoringCase p s"
proof (induction p arbitrary: s)
  case Nil
  then show ?case by (auto simp: sameNameIgnoringCase_def)
next
  case (Cons c r)
  from Cons.prems have r: "isPlainName r"
    by (simp add: isPlainName_def)
  show ?case
  proof (cases r)
    case Nil
    then show ?thesis
      by (cases s) (auto simp: sameNameIgnoringCase_def matchChar_def split: list.splits)
  next
    case (Cons q r')
    from r Cons have "\<not> isQuantifier q"
      by (simp add: isPlainName_def atom_not_quantifier)
    then have q: "q \<noteq> CHR ''*''" "q \<noteq> CHR ''+''" "q \<noteq> CHR ''?''"
      by (auto simp: isQuantifier_def)
    have "matchHere (c # q # r') s =
            (case s of [] \<Rightarrow> False | x # t \<Rightarrow> matchChar c x \<and> matchHere (q # r') t)"
      using q by simp
    also have "\<dots> = sameNameIgnoringCase (c # q # r') s"
      using Cons.IH[OF r] Cons
      by (cases s) (auto simp: sameNameIgnoringCase_def matchChar_def)
    finally show ?thesis
      using Cons by simp
  qed
qed

text \<open>
  For a name without quantifiers the lookup is the comparison up to case: creating a
  category whose name equals, up to the case of letters, the name of a category of the
  same user fails with DuplicateName and changes nothing.
\<close>

lemma plain_duplicate_rejected:
  assumes "validateCategory b = []"
    and "isPlainName (trim (orEmpty (cb_name b)))"
    and "c \<in> set (categories d)" "c_userId c = actor"
    and "sameNameIgnoringCase (trim (orEmpty (cb_name b))) (name c)"
  shows "createCategory (regExpI other) newId actor b d = (Inl DuplicateName, d)"
proof -
  let ?n = "trim (orEmpty (cb_name b))"
  have re: "regExpI other ?n = Some (matchHere ?n)"
    using inFragment_plain[OF assms(2)] by (simp add: regExpI_def)
  have "matchHere ?n (name c) \<and> c_userId c = actor"
    using matchHere_plain[OF assms(2)] assms(4,5) by simp
  with assms(3) have "findOne (\<lambda>c. matchHere ?n (name c) \<and> c_userId c = actor) (categories d) \<noteq> None"
    by (auto simp: findOne_None_iff)
  then obtain e where
    "findOne (\<lambda>c. matchHere ?n (name c) \<and> c_userId c = actor) (categories d) = Some e"
    by blast
  then show ?thesis
    using assms(1) re
    by (simp add: createCategory_def Let_def findByNameAndUser_def sanitizeCategory_def orEmpty_def)
qed

text \<open>
  Whatever the regular expression engine does, the response to a create request depends
  on the categories of the acting user only: the categories of other users, whatever
  their names, do not change it.
\<close>

lemma findOne_filter: "(\<And>x. P x \<Longrightarrow> Q x) \<Longrightarrow> findOne P (filter Q xs) = findOne P xs"
  unfolding findOne_def by (induction xs) auto

lemma create_ignores_other_users:
  "fst (createCategory re newId actor b
          (d\<lparr>categories := filter (\<lambda>c. c_userId c = actor) (categories d)\<rparr>))
   = fst (createCategory re newId actor b d)"
proof -
  let ?own = "filter (\<lambda>c. c_userId c = actor) (categories d)"
  have look: "findByNameAndUser re n actor ?own = findByNameAndUser re n actor (categories d)" for n
  proof -
    have "findOne (\<lambda>c. m (name c) \<and> c_userId c = actor) ?own
            = findOne (\<lambda>c. m (name c) \<and> c_userId c = actor) (categories d)" for m
      by (rule findOne_filter) simp
    then show ?thesis
      by (simp add: findByNameAndUser_def split: option.split)
  qed
  have so: "nextSortOrder actor ?own = nextSortOrder actor (categories d)"
    by (simp add: nextSortOrder_def)
  have dup: "duplicateKey c ?own = duplicateKey c (categories d)" if "c_userId c = actor" for c
    using that by (auto simp: duplicateKey_def list_ex_iff)
  have pre: "preSave re True c ?own = preSave re True c (categories d)" if "c_userId c = actor" for c
    using that by (simp add: preSave_def look)
  show ?thesis
    by (simp add: createCategory_def Let_def look so dup pre split: option.split)
qed

text \<open>
  C7, at two names that differ only in the case of their letters and end in a question
  mark. The name is spliced into the regular expression as it is, so the lookup for
  LATER? asks for a name matching \<^verbatim>\<open>^LATER?$\<close> (LATE followed by an optional R), which
  the stored name Later? does not match; the unique index compares the names exactly.
  Both categories are created for the same user. For a name of letters only the lookup
  finds the stored name in another case, and the second creation fails with
  DuplicateName; another user creates a category with the stored name.
\<close>

theorem C7_unescaped_name_not_detected:
  "sameNameIgnoringCase ''Later?'' ''LATER?''
   \<and> createCategory (regExpI other) laterId alice (namedBody ''Later?'') \<lparr>tasks = [], categories = []\<rparr>
       = (Inr (CategoryReply later), \<lparr>tasks = [], categories = [later]\<rparr>)
   \<and> createCategory (regExpI other) laterUpperId alice (namedBody ''LATER?'')
         \<lparr>tasks = [], categories = [later]\<rparr>
       = (Inr (CategoryReply laterUpper), \<lparr>tasks = [], categories = [later, laterUpper]\<rparr>)
   \<and> c_userId later = c_userId laterUpper
   \<and> createCategory (regExpI other) laterUpperId alice (namedBody ''ERRANDS'') dbErrands
       = (Inl DuplicateName, dbErrands)
   \<and> fst (createCategory (regExpI other) laterUpperId bob (namedBody ''Errands'') dbErrands)
       = Inr (CategoryReply (errands\<lparr>c_id := laterUpperId, color := ''#10b981'',
                                      c_userId := bob\<rparr>))"
proof -
  have same: "sameNameIgnoringCase ''Later?'' ''LATER?''"
    by (simp add: regexp_defs)
  have first: "createCategory (regExpI other) laterId alice (namedBody ''Later?'')
                 \<lparr>tasks = [], categories = []\<rparr>
               = (Inr (CategoryReply later), \<lparr>tasks = [], categories = [later]\<rparr>)"
    by (simp add: createCategory_def namedBody_def validation_defs query_defs
          findByNameAndUser_def later_pattern preSave_def duplicateKey_def nextSortOrder_def
          later_def Let_def)
  have second: "createCategory (regExpI other) laterUpperId alice (namedBody ''LATER?'')
                  \<lparr>tasks = [], categories = [later]\<rparr>
                = (Inr (CategoryReply laterUpper),
                   \<lparr>tasks = [], categories = [later, laterUpper]\<rparr>)"
    by (simp add: createCategory_def namedBody_def validation_defs query_defs
          findByNameAndUser_def later_pattern preSave_def duplicateKey_def nextSortOrder_def
          later_def laterUpper_def alice_def laterId_def laterUpperId_def Let_def)
  have plain: "createCategory (regExpI other) laterUpperId alice (namedBody ''ERRANDS'') dbErrands
                 = (Inl DuplicateName, dbErrands)"
    by (simp add: createCategory_def namedBody_def validation_defs query_defs
          findByNameAndUser_def errands_pattern regexp_defs dbErrands_def errands_def alice_def
          Let_def)
  have other: "fst (createCategory (regExpI other) laterUpperId bob (namedBody ''Errands'') dbErrands)
                 = Inr (CategoryReply (errands\<lparr>c_id := laterUpperId, color := ''#10b981'',
                                                c_userId := bob\<rparr>))"
    by (simp add: createCategory_def namedBody_def validation_defs query_defs
          findByNameAndUser_def regexp_defs preSave_def duplicateKey_def nextSortOrder_def
          dbErrands_def errands_def alice_def bob_def Let_def)
  show ?thesis
    using same first second plain other by (simp add: later_def laterUpper_def)
qed

theorem C7_unescaped_name_not_detected_witness:
  "map name (categories (snd (createCategory (regExpI (\<lambda>p. None)) laterUpperId alice (namedBody ''LATER?'')
                                 \<lparr>tasks = [], categories = [later]\<rparr>)))
     = [''Later?'', ''LATER?'']
   \<and> map c_userId (categories (snd (createCategory (regExpI (\<lambda>p. None)) laterUpperId alice
                                        (namedBody ''LATER?'')
                                        \<lparr>tasks = [], categories = [later]\<rparr>)))
     = [alice, alice]"
  using C7_unescaped_name_not_detected[of "\<lambda>p. None"]
  by (simp add: later_def laterUpper_def)

section \<open>Ownership scoping of the database-backed routes\<close>

lemma distinct_key_eq:
  "distinct (map k xs) \<Longrightarrow> x \<in> set xs \<Longrightarrow> y \<in> set xs \<Longrightarrow> k x = k y \<Longrightarrow> x = y"
  by (meson distinct_map inj_on_def)

lemma filter_updateOne_frame:
  "(\<forall>x\<in>set xs. P x \<longrightarrow> \<not> Q x \<and> \<not> Q (f x)) \<Longrightarrow> filter Q (updateOne P f xs) = filter Q xs"
  by (induction xs) auto

lemma filter_deleteOne_frame:
  "(\<forall>x\<in>set xs. P x \<longrightarrow> \<not> Q x) \<Longrightarrow> filter Q (deleteOne P xs) = filter Q xs"
  by (induction xs) auto

lemma consistentD:
  "consistent d \<Longrightarrow> t \<in> set (tasks d) \<Longrightarrow> c \<in> set (categories d) \<Longrightarrow>
   categoryId t = Some (c_id c) \<Longrightarrow> c_userId c = t_userId t"
  by (auto simp: consistent_def list_all_iff)

lemma foreign_task_hidden:
  assumes "consistent d" "t \<in> set (tasks d)" "t_userId t \<noteq> actor"
  shows "ownTask actor (t_id t) (tasks d) = None"
proof -
  have "distinct (map t_id (tasks d))"
    using assms(1) by (simp add: consistent_def)
  then have "\<forall>x\<in>set (tasks d). t_id x = t_id t \<longrightarrow> x = t"
    using assms(2) distinct_key_eq by metis
  then show ?thesis
    using assms(3) by (auto simp: ownTask_def findOne_None_iff)
qed

lemma foreign_category_hidden:
  assumes "consistent d" "c \<in> set (categories d)" "c_userId c \<noteq> actor"
  shows "ownCategoryById actor (c_id c) (categories d) = None"
proof -
  have "distinct (map c_id (categories d))"
    using assms(1) by (simp add: consistent_def)
  then have "\<forall>x\<in>set (categories d). c_id x = c_id c \<longrightarrow> x = c"
    using assms(2) distinct_key_eq by metis
  then show ?thesis
    using assms(3) by (auto simp: ownCategoryById_def findOne_None_iff)
qed

lemma absent_task_hidden:
  "ownTask actor i (filter (\<lambda>x. t_id x \<noteq> i) ts) = None"
  by (auto simp: ownTask_def findOne_None_iff)

lemma absent_category_hidden:
  "ownCategoryById actor i (filter (\<lambda>x. c_id x \<noteq> i) cs) = None"
  by (auto simp: ownCategoryById_def findOne_None_iff)

lemma foreign_task_not_found:
  assumes "consistent d" "t \<in> set (tasks d)" "t_userId t \<noteq> actor"
    and "taskTarget r = Some (t_id t)"
  shows "foreignTaskNotFound lib now actor r d t"
proof -
  note hid = foreign_task_hidden[OF assms(1,2,3)] absent_task_hidden[of actor "t_id t" "tasks d"]
  from assms(4) show ?thesis
    by (cases r)
       (simp_all add: foreignTaskNotFound_def getTask_def updateTask_def toggleTask_def
          deleteTask_def hid Let_def)
qed

lemma foreign_category_not_found:
  assumes "consistent d" "c \<in> set (categories d)" "c_userId c \<noteq> actor"
    and "categoryTarget r = Some (c_id c)"
  shows "foreignCategoryNotFound lib now actor r d c"
proof -
  note hid = foreign_category_hidden[OF assms(1,2,3)]
    absent_category_hidden[of actor "c_id c" "categories d"]
  from assms(4) show ?thesis
    by (cases r)
       (simp_all add: foreignCategoryNotFound_def getCategory_def updateCategory_def
          deleteCategory_def toggleCategory_def reorderCategory_def hid Let_def
          split: option.split)
qed

lemma own_task_all:
  assumes "consistent d" "ownTask actor i (tasks d) = Some t"
  shows "t \<in> set (tasks d)" "t_id t = i" "t_userId t = actor"
    and "\<forall>x\<in>set (tasks d). t_id x = i \<longrightarrow> x = t"
proof -
  from assms(2) show t: "t \<in> set (tasks d)" and i: "t_id t = i" and "t_userId t = actor"
    using findOne_Some_holds[of "\<lambda>t. t_id t = i \<and> t_userId t = actor" "tasks d" t]
    by (auto simp: ownTask_def)
  have "distinct (map t_id (tasks d))"
    using assms(1) by (simp add: consistent_def)
  then show "\<forall>x\<in>set (tasks d). t_id x = i \<longrightarrow> x = t"
    using t i distinct_key_eq by metis
qed

lemma own_category_all:
  assumes "consistent d" "ownCategoryById actor i (categories d) = Some c"
  shows "c \<in> set (categories d)" "c_id c = i" "c_userId c = actor"
    and "\<forall>x\<in>set (categories d). c_id x = i \<longrightarrow> x = c"
proof -
  from assms(2) show c: "c \<in> set (categories d)" and i: "c_id c = i" and "c_userId c = actor"
    using findOne_Some_holds[of "\<lambda>c. c_id c = i \<and> c_userId c = actor" "categories d" c]
    by (auto simp: ownCategoryById_def)
  have "distinct (map c_id (categories d))"
    using assms(1) by (simp add: consistent_def)
  then show "\<forall>x\<in>set (categories d). c_id x = i \<longrightarrow> x = c"
    using c i distinct_key_eq by metis
qed

lemma own_task_only:
  assumes "consistent d" "ownTask actor i (tasks d) = Some t"
  shows "\<forall>x\<in>set (tasks d). t_id x = i \<longrightarrow> t_userId x = actor"
  using own_task_all(3,4)[OF assms] by blast

lemma own_category_only:
  assumes "consistent d" "ownCategoryById actor i (categories d) = Some c"
  shows "\<forall>x\<in>set (categories d). c_id x = i \<longrightarrow> c_userId x = actor"
  using own_category_all(3,4)[OF assms] by blast

lemma incTaskCount_members:
  "x \<in> set (incTaskCount i n cs) \<Longrightarrow> \<exists>y\<in>set cs. c_id y = c_id x \<and> c_userId y = c_userId x"
  unfolding incTaskCount_def
  by (induction cs) (auto split: if_splits)

lemma incTaskCount_frame:
  "(\<forall>x\<in>set cs. c_id x = i \<longrightarrow> c_userId x = actor) \<Longrightarrow>
   filter (\<lambda>c. c_userId c \<noteq> actor) (incTaskCount i n cs) = filter (\<lambda>c. c_userId c \<noteq> actor) cs"
  unfolding incTaskCount_def
  by (rule filter_updateOne_frame) auto

lemma incTaskCount_own_frame:
  assumes "consistent d" "ownCategoryById actor i (categories d) = Some c"
  shows "filter (\<lambda>c. c_userId c \<noteq> actor) (incTaskCount i n (categories d))
           = filter (\<lambda>c. c_userId c \<noteq> actor) (categories d)"
  using own_category_only[OF assms] by (rule incTaskCount_frame)

lemma incTaskCount_referenced_frame:
  assumes "consistent d" "t \<in> set (tasks d)" "t_userId t = actor" "categoryId t = Some i"
  shows "filter (\<lambda>c. c_userId c \<noteq> actor) (incTaskCount i n (categories d))
           = filter (\<lambda>c. c_userId c \<noteq> actor) (categories d)"
proof -
  have "\<forall>x\<in>set (categories d). c_id x = i \<longrightarrow> c_userId x = actor"
    using consistentD[OF assms(1,2)] assms(3,4) by auto
  then show ?thesis
    by (rule incTaskCount_frame)
qed

lemma applyTaskUpdate_keeps [simp]:
  "t_userId (applyTaskUpdate now b g t) = t_userId t"
  "t_id (applyTaskUpdate now b g t) = t_id t"
  by (simp_all add: applyTaskUpdate_def)

lemma applyCategoryUpdate_keeps [simp]:
  "c_userId (applyCategoryUpdate b c) = c_userId c" "c_id (applyCategoryUpdate b c) = c_id c"
  by (simp_all add: applyCategoryUpdate_def)

lemma toggleComplete_eq:
  "toggleComplete now saved doc =
     \<lparr>paths = (paths doc)\<lparr>completed := \<not> completed (paths doc), t_updatedAt := saved\<rparr>,
      completedAt = (if completed (paths doc) then None else Some now)\<rparr>"
  by (cases doc) (simp add: toggleComplete_def Let_def)

lemma saveToggled_keeps [simp]:
  "t_userId (saveToggled doc t) = t_userId t" "t_id (saveToggled doc t) = t_id t"
  "categoryId (saveToggled doc t) = categoryId t"
  by (simp_all add: saveToggled_def)

text \<open>No route changes, adds or removes a document of another user.\<close>

lemma frame_listTasks: "othersUntouched actor d (snd (listTasks se actor q d))"
  by (simp add: othersUntouched_def listTasks_def split: option.split)

lemma frame_taskStats: "othersUntouched actor d (snd (taskStats pc now actor d))"
  by (simp add: othersUntouched_def taskStats_def Let_def)

lemma frame_listCategories: "othersUntouched actor d (snd (listCategories actor q d))"
  by (simp add: othersUntouched_def listCategories_def)

lemma frame_categoryStats: "othersUntouched actor d (snd (categoryStats actor d))"
  by (simp add: othersUntouched_def categoryStats_def Let_def)

lemma frame_getTask: "othersUntouched actor d (snd (getTask actor i d))"
  by (simp add: othersUntouched_def getTask_def split: option.split)

lemma frame_getCategory: "othersUntouched actor d (snd (getCategory actor i d))"
  by (simp add: othersUntouched_def getCategory_def split: option.split)

lemma frame_createTask:
  assumes "consistent d"
  shows "othersUntouched actor d (snd (createTask newId now actor b d))"
proof (cases "validateTask b = []")
  case False
  then show ?thesis
    by (simp add: othersUntouched_def createTask_def)
next
  case valid: True
  show ?thesis
  proof (cases "givenCategory (b_categoryId (sanitizeTask b))")
    case None
    then show ?thesis
      using valid by (simp add: othersUntouched_def createTask_def Let_def)
  next
    case given: (Some g)
    show ?thesis
    proof (cases g)
      case None
      then show ?thesis
        using valid given by (simp add: othersUntouched_def createTask_def Let_def)
    next
      case c: (Some c)
      show ?thesis
      proof (cases "ownCategoryById actor c (categories d)")
        case None
        then show ?thesis
          using valid given c by (simp add: othersUntouched_def createTask_def Let_def)
      next
        case (Some x)
        then show ?thesis
          using valid given c incTaskCount_own_frame[OF assms Some]
          by (simp add: othersUntouched_def createTask_def Let_def)
      qed
    qed
  qed
qed

lemma frame_updateTask:
  assumes "consistent d"
  shows "othersUntouched actor d (snd (updateTask now actor i b d))"
proof (cases "validateTask b = []")
  case False
  then show ?thesis
    by (simp add: othersUntouched_def updateTask_def)
next
  case valid: True
  show ?thesis
  proof (cases "ownTask actor i (tasks d)")
    case None
    then show ?thesis
      using valid by (simp add: othersUntouched_def updateTask_def Let_def)
  next
    case (Some t)
    note own = own_task_all[OF assms Some]
    let ?Q = "\<lambda>c. c_userId c \<noteq> actor"
    let ?b = "sanitizeTask b"
    let ?cs1 = "case categoryId t of None \<Rightarrow> categories d
                | Some old \<Rightarrow>
                    if strictNe (b_categoryId ?b) (categoryId t)
                    then incTaskCount old (- 1) (categories d) else categories d"
    have ts: "filter (\<lambda>t. t_userId t \<noteq> actor)
                (updateOne (\<lambda>t. t_id t = i) (applyTaskUpdate now ?b g) (tasks d))
                = filter (\<lambda>t. t_userId t \<noteq> actor) (tasks d)" for g
      using own_task_only[OF assms Some] by (intro filter_updateOne_frame) auto
    have cs1: "filter ?Q ?cs1 = filter ?Q (categories d)"
      using incTaskCount_referenced_frame[OF assms own(1) own(3)]
      by (simp add: strictNe_def split: option.split)
    have cs1_members: "\<forall>x\<in>set ?cs1. \<exists>y\<in>set (categories d). c_id y = c_id x \<and> c_userId y = c_userId x"
      using incTaskCount_members by (auto simp: strictNe_def split: option.split)
    show ?thesis
    proof (cases "givenCategory (b_categoryId ?b)")
      case None
      then show ?thesis
        using valid Some by (simp add: othersUntouched_def updateTask_def Let_def)
    next
      case given: (Some g)
      show ?thesis
      proof (cases g)
        case None
        then show ?thesis
          using valid Some given ts cs1
          by (simp add: othersUntouched_def updateTask_def Let_def strictNe_def)
      next
        case n: (Some n)
        show ?thesis
        proof (cases "ownCategoryById actor n (categories d)")
          case None
          then show ?thesis
            using valid Some given n
            by (simp add: othersUntouched_def updateTask_def Let_def strictNe_def)
        next
          case c: (Some c)
          have "\<forall>x\<in>set ?cs1. c_id x = n \<longrightarrow> c_userId x = actor"
            using cs1_members own_category_only[OF assms c] by metis
          then have "filter ?Q (incTaskCount n 1 ?cs1) = filter ?Q ?cs1"
            by (rule incTaskCount_frame)
          with cs1 have cs2: "filter ?Q (incTaskCount n 1 ?cs1) = filter ?Q (categories d)"
            by simp
          show ?thesis
            using valid Some given n c ts cs2
            by (simp add: othersUntouched_def updateTask_def Let_def strictNe_def)
        qed
      qed
    qed
  qed
qed

lemma frame_toggleTask:
  assumes "consistent d"
  shows "othersUntouched actor d (snd (toggleTask now actor i d))"
proof (cases "ownTask actor i (tasks d)")
  case None
  then show ?thesis
    by (simp add: othersUntouched_def toggleTask_def)
next
  case (Some t)
  have "filter (\<lambda>t. t_userId t \<noteq> actor)
          (updateOne (\<lambda>t. t_id t = i) (saveToggled doc) (tasks d))
        = filter (\<lambda>t. t_userId t \<noteq> actor) (tasks d)" for doc
    using own_task_only[OF assms Some] by (intro filter_updateOne_frame) auto
  then show ?thesis
    using Some by (simp add: othersUntouched_def toggleTask_def Let_def)
qed

lemma frame_deleteTask:
  assumes "consistent d"
  shows "othersUntouched actor d (snd (deleteTask actor i d))"
proof (cases "ownTask actor i (tasks d)")
  case None
  then show ?thesis
    by (simp add: othersUntouched_def deleteTask_def)
next
  case (Some t)
  note own = own_task_all[OF assms Some]
  have ts: "filter (\<lambda>t. t_userId t \<noteq> actor) (deleteOne (\<lambda>t. t_id t = i) (tasks d))
              = filter (\<lambda>t. t_userId t \<noteq> actor) (tasks d)"
    using own_task_only[OF assms Some] by (intro filter_deleteOne_frame) auto
  have cs: "filter (\<lambda>c. c_userId c \<noteq> actor)
              (case categoryId t of None \<Rightarrow> categories d
               | Some c \<Rightarrow> incTaskCount c (- 1) (categories d))
            = filter (\<lambda>c. c_userId c \<noteq> actor) (categories d)"
    using incTaskCount_referenced_frame[OF assms own(1) own(3)]
    by (simp split: option.split)
  show ?thesis
    using Some ts cs by (simp add: othersUntouched_def deleteTask_def Let_def)
qed

lemma frame_createCategory:
  "othersUntouched actor d (snd (createCategory re newId actor b d))"
  by (simp add: othersUntouched_def createCategory_def Let_def split: option.split)

lemma frame_updateCategory:
  assumes "consistent d"
  shows "othersUntouched actor d (snd (updateCategory re actor i b d))"
proof (cases "ownCategoryById actor i (categories d)")
  case None
  then show ?thesis
    by (simp add: othersUntouched_def updateCategory_def Let_def)
next
  case (Some c)
  have "filter (\<lambda>c. c_userId c \<noteq> actor)
          (updateOne (\<lambda>x. c_id x = i) (applyCategoryUpdate (sanitizeCategory b)) (categories d))
        = filter (\<lambda>c. c_userId c \<noteq> actor) (categories d)"
    using own_category_only[OF assms Some] by (intro filter_updateOne_frame) auto
  then show ?thesis
    using Some
    by (simp add: othersUntouched_def updateCategory_def Let_def split: option.split)
qed

lemma frame_deleteCategory:
  assumes "consistent d"
  shows "othersUntouched actor d (snd (deleteCategory now actor i d))"
proof (cases "ownCategoryById actor i (categories d)")
  case None
  then show ?thesis
    by (simp add: othersUntouched_def deleteCategory_def)
next
  case (Some c)
  note own = own_category_all[OF assms Some]
  have cs: "filter (\<lambda>c. c_userId c \<noteq> actor) (deleteOne (\<lambda>x. c_id x = i) (categories d))
              = filter (\<lambda>c. c_userId c \<noteq> actor) (categories d)"
    using own_category_only[OF assms Some] by (intro filter_deleteOne_frame) auto
  have ts: "countDocuments (\<lambda>t. categoryId t = Some i) (tasks d) = 0 \<Longrightarrow>
              preRemove now i (tasks d) = tasks d"
    by (simp add: countDocuments_def preRemove_def updateMany_none)
  show ?thesis
    using Some cs ts own(2)
    by (simp add: othersUntouched_def deleteCategory_def Let_def)
qed

lemma frame_toggleCategory:
  assumes "consistent d"
  shows "othersUntouched actor d (snd (toggleCategory re actor i d))"
proof (cases "ownCategoryById actor i (categories d)")
  case None
  then show ?thesis
    by (simp add: othersUntouched_def toggleCategory_def)
next
  case (Some c)
  note own = own_category_all[OF assms Some]
  have "filter (\<lambda>c. c_userId c \<noteq> actor)
          (updateOne (\<lambda>x. c_id x = i) (\<lambda>x. x\<lparr>isActive := \<not> isActive c\<rparr>) (categories d))
        = filter (\<lambda>c. c_userId c \<noteq> actor) (categories d)"
    using own_category_only[OF assms Some] by (intro filter_updateOne_frame) auto
  then show ?thesis
    using Some own(2) by (simp add: othersUntouched_def toggleCategory_def Let_def)
qed

lemma frame_reorderCategory:
  assumes "consistent d"
  shows "othersUntouched actor d (snd (reorderCategory re actor i so d))"
proof (cases "ownCategoryById actor i (categories d)")
  case None
  then show ?thesis
    by (simp add: othersUntouched_def reorderCategory_def split: option.split)
next
  case (Some c)
  note own = own_category_all[OF assms Some]
  have "filter (\<lambda>c. c_userId c \<noteq> actor)
          (updateOne (\<lambda>x. c_id x = i) (\<lambda>x. x\<lparr>sortOrder := n\<rparr>) (categories d))
        = filter (\<lambda>c. c_userId c \<noteq> actor) (categories d)" for n
    using own_category_only[OF assms Some] by (intro filter_updateOne_frame) auto
  then show ?thesis
    using Some own(2)
    by (simp add: othersUntouched_def reorderCategory_def Let_def split: option.split)
qed

lemma handle_frame:
  assumes "consistent d"
  shows "othersUntouched actor d (snd (handle lib now actor r d))"
  using assms
  by (cases r)
     (simp_all add: frame_listTasks frame_taskStats frame_listCategories frame_categoryStats
        frame_getTask frame_createTask frame_updateTask frame_toggleTask
        frame_deleteTask frame_getCategory frame_createCategory frame_updateCategory
        frame_deleteCategory frame_toggleCategory frame_reorderCategory)

lemma updateOne_members:
  "x \<in> set (updateOne P f xs) \<Longrightarrow> x \<in> set xs \<or> (\<exists>y\<in>set xs. P y \<and> x = f y)"
  by (induction xs) (auto split: if_splits)

lemma ownTask_SomeD:
  "ownTask actor i ts = Some t \<Longrightarrow> t \<in> set ts \<and> t_id t = i \<and> t_userId t = actor"
  unfolding ownTask_def by (drule findOne_Some_holds) simp

lemma ownCategoryById_SomeD:
  "ownCategoryById actor i cs = Some c \<Longrightarrow> c \<in> set cs \<and> c_id c = i \<and> c_userId c = actor"
  unfolding ownCategoryById_def by (drule findOne_Some_holds) simp
text \<open>Queries on the rows of one user.\<close>

lemma findOne_filter_set:
  "(\<forall>x\<in>set xs. P x \<longrightarrow> Q x) \<Longrightarrow> findOne P (filter Q xs) = findOne P xs"
  unfolding findOne_def by (induction xs) auto

lemma findOne_conj:
  "(\<forall>x\<in>set xs. P x \<longrightarrow> Q x) \<Longrightarrow> findOne (\<lambda>x. P x \<and> Q x) xs = findOne P xs"
  unfolding findOne_def by (induction xs) auto

lemma findOne_updateOne_same:
  "(\<And>x. P x \<Longrightarrow> P (f x)) \<Longrightarrow> findOne P (updateOne P f xs) = map_option f (findOne P xs)"
  unfolding findOne_def by (induction xs) auto

lemma findOne_updateOne_proj:
  "(\<And>x. P (f x) = P x) \<Longrightarrow> (\<And>x. h (f x) = h x) \<Longrightarrow>
   map_option h (findOne P (updateOne R f xs)) = map_option h (findOne P xs)"
  unfolding findOne_def by (induction xs) auto

lemma countDocuments_filter:
  "(\<forall>x\<in>set xs. P x \<longrightarrow> Q x) \<Longrightarrow> countDocuments P (filter Q xs) = countDocuments P xs"
  unfolding countDocuments_def by (induction xs) auto

lemma filter_implied:
  "(\<forall>x\<in>set xs. P x \<longrightarrow> Q x) \<Longrightarrow> filter P (filter Q xs) = filter P xs"
  by (induction xs) auto

lemma filter_deleteOne_commute:
  "(\<forall>x\<in>set xs. P x \<longrightarrow> Q x) \<Longrightarrow> filter Q (deleteOne P xs) = deleteOne P (filter Q xs)"
  by (induction xs) auto

lemma set_insertBy: "set (insertBy le x xs) = insert x (set xs)"
  by (induction xs) auto

lemma set_sortBy: "set (sortBy le xs) = set xs"
  unfolding sortBy_def by (induction xs) (auto simp: set_insertBy)

lemma populate_filter:
  assumes "\<forall>c\<in>set cs. categoryId t = Some (c_id c) \<longrightarrow> Q c"
  shows "populate (filter Q cs) t = populate cs t"
proof (cases "categoryId t")
  case None
  then show ?thesis by (simp add: populate_def)
next
  case (Some i)
  with assms have "\<forall>c\<in>set cs. c_id c = i \<longrightarrow> Q c"
    by auto
  then have "findOne (\<lambda>c. c_id c = i) (filter Q cs) = findOne (\<lambda>c. c_id c = i) cs"
    by (rule findOne_filter_set)
  with Some show ?thesis by (simp add: populate_def)
qed

lemma populate_incTaskCount: "populate (incTaskCount i n cs) t = populate cs t"
proof (cases "categoryId t")
  case None
  then show ?thesis by (simp add: populate_def)
next
  case (Some j)
  have "map_option (\<lambda>c. (c_id c, name c, color c))
          (findOne (\<lambda>c. c_id c = j)
             (updateOne (\<lambda>c. c_id c = i) (\<lambda>c. c\<lparr>taskCount := taskCount c + n\<rparr>) cs))
        = map_option (\<lambda>c. (c_id c, name c, color c)) (findOne (\<lambda>c. c_id c = j) cs)"
    by (rule findOne_updateOne_proj) simp_all
  with Some show ?thesis by (simp add: populate_def incTaskCount_def)
qed

lemma ownRows_simps [simp]:
  "tasks (ownRows actor d) = filter (\<lambda>t. t_userId t = actor) (tasks d)"
  "categories (ownRows actor d) = filter (\<lambda>c. c_userId c = actor) (categories d)"
  by (simp_all add: ownRows_def)

lemma ownTask_ownRows [simp]:
  "ownTask actor i (filter (\<lambda>t. t_userId t = actor) ts) = ownTask actor i ts"
  unfolding ownTask_def by (rule findOne_filter_set) simp

lemma ownCategoryById_ownRows [simp]:
  "ownCategoryById actor i (filter (\<lambda>c. c_userId c = actor) cs) = ownCategoryById actor i cs"
  unfolding ownCategoryById_def by (rule findOne_filter_set) simp

lemma populate_own_task:
  assumes "consistent d" "t \<in> set (tasks d)" "t_userId t = actor" "categoryId u = categoryId t"
  shows "populate (filter (\<lambda>c. c_userId c = actor) (categories d)) u = populate (categories d) u"
proof -
  have "\<forall>c\<in>set (categories d). categoryId u = Some (c_id c) \<longrightarrow> c_userId c = actor"
    using consistentD[OF assms(1,2)] assms(3,4) by auto
  then show ?thesis by (rule populate_filter)
qed

lemma populate_own_category:
  assumes "consistent d" "ownCategoryById actor c (categories d) = Some x" "categoryId u = Some c"
  shows "populate (filter (\<lambda>c. c_userId c = actor) (categories d)) u = populate (categories d) u"
proof -
  have "\<forall>y\<in>set (categories d). categoryId u = Some (c_id y) \<longrightarrow> c_userId y = actor"
    using own_category_only[OF assms(1,2)] assms(3) by auto
  then show ?thesis by (rule populate_filter)
qed

lemma populate_none: "categoryId u = None \<Longrightarrow> populate cs u = None"
  by (simp add: populate_def)

text \<open>The task that the update route sends back.\<close>

lemma updateTask_reply:
  assumes "validateTask b = []" "ownTask actor i (tasks d) = Some t"
    and "\<forall>x\<in>set (tasks d). t_id x = i \<longrightarrow> t_userId x = actor"
    and "givenCategory (b_categoryId (sanitizeTask b)) = Some g"
    and "case g of None \<Rightarrow> True | Some c \<Rightarrow> ownCategoryById actor c (categories d) \<noteq> None"
  shows "fst (updateTask now actor i b d) =
           Inr (TaskReply (applyTaskUpdate now (sanitizeTask b) g t)
                  (populate (categories d) (applyTaskUpdate now (sanitizeTask b) g t)))"
proof -
  let ?f = "applyTaskUpdate now (sanitizeTask b) g"
  have "findOne (\<lambda>x. t_id x = i \<and> t_userId x = actor) (tasks d) = findOne (\<lambda>x. t_id x = i) (tasks d)"
    using assms(3) by (rule findOne_conj)
  with assms(2) have look: "findOne (\<lambda>x. t_id x = i) (tasks d) = Some t"
    by (simp add: ownTask_def)
  have "findOne (\<lambda>x. t_id x = i) (updateOne (\<lambda>x. t_id x = i) ?f (tasks d))
          = map_option ?f (findOne (\<lambda>x. t_id x = i) (tasks d))"
    by (rule findOne_updateOne_same) simp
  with look have new: "findOne (\<lambda>x. t_id x = i) (updateOne (\<lambda>x. t_id x = i) ?f (tasks d)) = Some (?f t)"
    by simp
  have ok: "\<not> (case g of None \<Rightarrow> False | Some c \<Rightarrow> ownCategoryById actor c (categories d) = None)"
    using assms(5) by (cases g) simp_all
  show ?thesis
    using assms(1,2,4) ok new
    by (simp add: updateTask_def Let_def)
qed

text \<open>
  The response to a request is the response to the same request on the rows of the acting
  user alone.
\<close>

lemma own_getTask:
  assumes "consistent d"
  shows "fst (getTask actor i (ownRows actor d)) = fst (getTask actor i d)"
proof (cases "ownTask actor i (tasks d)")
  case None
  then show ?thesis by (simp add: getTask_def)
next
  case (Some t)
  from ownTask_SomeD[OF Some] have "t \<in> set (tasks d)" "t_userId t = actor"
    by simp_all
  from populate_own_task[OF assms this refl] Some show ?thesis
    by (simp add: getTask_def)
qed

lemma own_createTask:
  assumes "consistent d"
  shows "fst (createTask newId now actor b (ownRows actor d)) = fst (createTask newId now actor b d)"
proof (cases "validateTask b = []")
  case False
  then show ?thesis
    by (simp add: createTask_def)
next
  case valid: True
  show ?thesis
  proof (cases "givenCategory (b_categoryId (sanitizeTask b))")
    case None
    then show ?thesis
      using valid by (simp add: createTask_def Let_def)
  next
    case given: (Some g)
    show ?thesis
    proof (cases g)
      case None
      then show ?thesis
        using valid given by (simp add: createTask_def Let_def populate_none)
    next
      case c: (Some c)
      show ?thesis
      proof (cases "ownCategoryById actor c (categories d)")
        case None
        then show ?thesis
          using valid given c by (simp add: createTask_def Let_def)
      next
        case (Some x)
        have "populate (filter (\<lambda>c. c_userId c = actor) (categories d)) u
                = populate (categories d) u" if "categoryId u = Some c" for u
          using populate_own_category[OF assms Some that] .
        then show ?thesis
          using valid given c Some
          by (simp add: createTask_def Let_def populate_incTaskCount)
      qed
    qed
  qed
qed

lemma own_updateTask:
  assumes "consistent d"
  shows "fst (updateTask now actor i b (ownRows actor d)) = fst (updateTask now actor i b d)"
proof (cases "validateTask b = []")
  case False
  then show ?thesis
    by (simp add: updateTask_def)
next
  case valid: True
  show ?thesis
  proof (cases "ownTask actor i (tasks d)")
    case None
    then show ?thesis
      using valid by (simp add: updateTask_def Let_def)
  next
    case (Some t)
    note own = ownTask_SomeD[OF Some]
    show ?thesis
    proof (cases "givenCategory (b_categoryId (sanitizeTask b))")
      case None
      then show ?thesis
        using valid Some by (simp add: updateTask_def Let_def)
    next
      case given: (Some g)
      let ?u = "applyTaskUpdate now (sanitizeTask b) g t"
      show ?thesis
      proof (cases "case g of None \<Rightarrow> True
                    | Some c \<Rightarrow> ownCategoryById actor c (categories d) \<noteq> None")
        case False
        then show ?thesis
          using valid Some given
          by (cases g) (simp_all add: updateTask_def Let_def strictNe_def)
      next
        case True
        have all: "fst (updateTask now actor i b d) = Inr (TaskReply ?u (populate (categories d) ?u))"
          using valid Some own_task_only[OF assms Some] given True
          by (rule updateTask_reply)
        have own1: "ownTask actor i (tasks (ownRows actor d)) = Some t"
          using Some by simp
        have only1: "\<forall>x\<in>set (tasks (ownRows actor d)). t_id x = i \<longrightarrow> t_userId x = actor"
          by simp
        have true1: "case g of None \<Rightarrow> True
                     | Some c \<Rightarrow> ownCategoryById actor c (categories (ownRows actor d)) \<noteq> None"
          using True by (cases g) simp_all
        have mine: "fst (updateTask now actor i b (ownRows actor d))
                      = Inr (TaskReply ?u (populate (categories (ownRows actor d)) ?u))"
          using valid own1 only1 given true1
          by (rule updateTask_reply)
        have "populate (filter (\<lambda>c. c_userId c = actor) (categories d)) ?u
                = populate (categories d) ?u"
        proof (cases "b_categoryId (sanitizeTask b)")
          case None
          then have "categoryId ?u = categoryId t"
            by (simp add: applyTaskUpdate_def)
          from populate_own_task[OF assms own[THEN conjunct1] _ this] own show ?thesis
            by simp
        next
          case s: (Some s)
          then have cu: "categoryId ?u = g"
            by (simp add: applyTaskUpdate_def)
          show ?thesis
          proof (cases g)
            case None
            with cu show ?thesis by (simp add: populate_none)
          next
            case c: (Some c)
            with True obtain x where "ownCategoryById actor c (categories d) = Some x"
              by auto
            from populate_own_category[OF assms this] cu c show ?thesis
              by simp
          qed
        qed
        with all mine show ?thesis
          by simp
      qed
    qed
  qed
qed

lemma own_toggleTask:
  assumes "consistent d"
  shows "fst (toggleTask now actor i (ownRows actor d)) = fst (toggleTask now actor i d)"
proof (cases "ownTask actor i (tasks d)")
  case None
  then show ?thesis by (simp add: toggleTask_def)
next
  case (Some t)
  from ownTask_SomeD[OF Some] have "t \<in> set (tasks d)" "t_userId t = actor"
    by simp_all
  from populate_own_task[OF assms this] Some show ?thesis
    by (simp add: toggleTask_def Let_def toggleComplete_eq loaded_def)
qed

lemma own_deleteTask:
  "fst (deleteTask actor i (ownRows actor d)) = fst (deleteTask actor i d)"
  by (simp add: deleteTask_def Let_def split: option.split)

lemma taskFilter_own: "taskFilter search actor q t \<Longrightarrow> t_userId t = actor"
  by (simp add: taskFilter_def)

lemma own_listTasks:
  assumes "consistent d"
  shows "fst (listTasks se actor q (ownRows actor d)) = fst (listTasks se actor q d)"
proof -
  have sel: "(\<lambda>x. t_userId x = actor \<and> taskFilter search actor q x) = taskFilter search actor q"
    for search
    by (rule ext) (auto dest: taskFilter_own)
  have "map (\<lambda>t. (t, populate (filter (\<lambda>c. c_userId c = actor) (categories d)) t))
          (sortBy le (filter (taskFilter search actor q) (tasks d)))
        = map (\<lambda>t. (t, populate (categories d) t))
            (sortBy le (filter (taskFilter search actor q) (tasks d)))" for search le
  proof (rule map_cong[OF refl])
    fix t
    assume "t \<in> set (sortBy le (filter (taskFilter search actor q) (tasks d)))"
    then have "t \<in> set (tasks d)" "t_userId t = actor"
      by (auto simp: set_sortBy dest: taskFilter_own)
    from populate_own_task[OF assms this refl]
    show "(t, populate (filter (\<lambda>c. c_userId c = actor) (categories d)) t)
            = (t, populate (categories d) t)"
      by simp
  qed
  then show ?thesis
    by (simp add: listTasks_def sel split: option.split)
qed

lemma own_taskStats:
  "fst (taskStats pc now actor (ownRows actor d)) = fst (taskStats pc now actor d)"
proof -
  have "countDocuments (\<lambda>t. t_userId t = actor \<and> P t) (filter (\<lambda>t. t_userId t = actor) (tasks d))
          = countDocuments (\<lambda>t. t_userId t = actor \<and> P t) (tasks d)" for P
    by (rule countDocuments_filter) simp
  from this this[of "\<lambda>t. True"] show ?thesis
    by (simp add: taskStats_def Let_def)
qed

lemma own_getCategory:
  "fst (getCategory actor i (ownRows actor d)) = fst (getCategory actor i d)"
  by (simp add: getCategory_def split: option.split)

lemma own_listCategories:
  "fst (listCategories actor q (ownRows actor d)) = fst (listCategories actor q d)"
proof -
  have "filter (categoryFilter actor q) (filter (\<lambda>c. c_userId c = actor) (categories d))
          = filter (categoryFilter actor q) (categories d)"
    by (rule filter_implied) (simp add: categoryFilter_def)
  then show ?thesis
    by (simp add: listCategories_def)
qed

lemma own_categoryStats:
  "fst (categoryStats actor (ownRows actor d)) = fst (categoryStats actor d)"
proof -
  have cnt: "countDocuments (\<lambda>c. c_userId c = actor \<and> P c)
               (filter (\<lambda>c. c_userId c = actor) (categories d))
             = countDocuments (\<lambda>c. c_userId c = actor \<and> P c) (categories d)" for P
    by (rule countDocuments_filter) simp
  have top: "filter (\<lambda>c. c_userId c = actor \<and> 0 < taskCount c)
               (filter (\<lambda>c. c_userId c = actor) (categories d))
             = filter (\<lambda>c. c_userId c = actor \<and> 0 < taskCount c) (categories d)"
    by (rule filter_implied) simp
  from cnt cnt[of "\<lambda>c. True"] top show ?thesis
    by (simp add: categoryStats_def Let_def)
qed

lemma findByNameAndUser_own:
  "findByNameAndUser re n actor (filter (\<lambda>c. c_userId c = actor) cs)
     = findByNameAndUser re n actor cs"
proof -
  have "findOne (\<lambda>c. m (name c) \<and> c_userId c = actor) (filter (\<lambda>c. c_userId c = actor) cs)
          = findOne (\<lambda>c. m (name c) \<and> c_userId c = actor) cs" for m
    by (rule findOne_filter_set) simp
  then show ?thesis
    by (simp add: findByNameAndUser_def split: option.split)
qed

lemma duplicateKey_own:
  "c_userId c = actor \<Longrightarrow>
   duplicateKey c (filter (\<lambda>c. c_userId c = actor) cs) = duplicateKey c cs"
  by (auto simp: duplicateKey_def list_ex_iff)

lemma own_createCategory:
  "fst (createCategory re newId actor b (ownRows actor d)) = fst (createCategory re newId actor b d)"
proof -
  let ?own = "filter (\<lambda>c. c_userId c = actor) (categories d)"
  have so: "nextSortOrder actor ?own = nextSortOrder actor (categories d)"
    by (simp add: nextSortOrder_def)
  have pre: "preSave re True c ?own = preSave re True c (categories d)" if "c_userId c = actor" for c
    using that by (simp add: preSave_def findByNameAndUser_own)
  show ?thesis
    by (simp add: createCategory_def Let_def findByNameAndUser_own so duplicateKey_own pre
          split: option.split)
qed

lemma own_updateCategory:
  assumes "consistent d"
  shows "fst (updateCategory re actor i b (ownRows actor d)) = fst (updateCategory re actor i b d)"
proof (cases "ownCategoryById actor i (categories d)")
  case None
  then show ?thesis
    by (simp add: updateCategory_def Let_def)
next
  case (Some c)
  note only = own_category_only[OF assms Some]
  let ?own = "filter (\<lambda>c. c_userId c = actor) (categories d)"
  have "findOne (\<lambda>x. c_id x = i \<and> c_userId x = actor) (categories d)
          = findOne (\<lambda>x. c_id x = i) (categories d)"
    using only by (rule findOne_conj)
  with Some have look: "findOne (\<lambda>x. c_id x = i) (categories d) = Some c"
    by (simp add: ownCategoryById_def)
  have "findOne (\<lambda>x. c_id x = i) ?own = findOne (\<lambda>x. c_id x = i) (categories d)"
    using only by (rule findOne_filter_set)
  with look have look1: "findOne (\<lambda>x. c_id x = i) ?own = Some c"
    by simp
  have "deleteOne (\<lambda>x. c_id x = i) ?own = filter (\<lambda>c. c_userId c = actor) (deleteOne (\<lambda>x. c_id x = i) (categories d))"
    using only by (rule filter_deleteOne_commute[symmetric])
  moreover have "c_userId (applyCategoryUpdate (sanitizeCategory b) c) = actor"
    using ownCategoryById_SomeD[OF Some] by simp
  ultimately have dup: "duplicateKey (applyCategoryUpdate (sanitizeCategory b) c)
                          (deleteOne (\<lambda>x. c_id x = i) ?own)
                        = duplicateKey (applyCategoryUpdate (sanitizeCategory b) c)
                            (deleteOne (\<lambda>x. c_id x = i) (categories d))"
    by (simp add: duplicateKey_own)
  show ?thesis
    using Some look look1 dup
    by (simp add: updateCategory_def Let_def findByNameAndUser_own split: option.split)
qed

lemma own_deleteCategory:
  assumes "consistent d"
  shows "fst (deleteCategory now actor i (ownRows actor d)) = fst (deleteCategory now actor i d)"
proof (cases "ownCategoryById actor i (categories d)")
  case None
  then show ?thesis
    by (simp add: deleteCategory_def)
next
  case (Some c)
  note own = ownCategoryById_SomeD[OF Some]
  have "\<forall>t\<in>set (tasks d). categoryId t = Some i \<longrightarrow> t_userId t = actor"
    using consistentD[OF assms _ own[THEN conjunct1]] own by auto
  then have "countDocuments (\<lambda>t. categoryId t = Some i) (filter (\<lambda>t. t_userId t = actor) (tasks d))
               = countDocuments (\<lambda>t. categoryId t = Some i) (tasks d)"
    by (rule countDocuments_filter)
  then show ?thesis
    using Some by (simp add: deleteCategory_def Let_def)
qed

lemma own_toggleCategory:
  "fst (toggleCategory re actor i (ownRows actor d)) = fst (toggleCategory re actor i d)"
  by (simp add: toggleCategory_def Let_def preSave_def split: option.split)

lemma own_reorderCategory:
  "fst (reorderCategory re actor i so (ownRows actor d)) = fst (reorderCategory re actor i so d)"
  by (simp add: reorderCategory_def Let_def preSave_def split: option.split)

lemma handle_own_rows:
  assumes "consistent d"
  shows "fst (handle lib now actor r (ownRows actor d)) = fst (handle lib now actor r d)"
  using assms
  by (cases r)
     (simp_all add: own_listTasks own_getTask own_createTask own_updateTask own_toggleTask
        own_deleteTask own_taskStats own_listCategories own_getCategory own_createCategory
        own_updateCategory own_deleteCategory own_toggleCategory own_reorderCategory
        own_categoryStats)
text \<open>Every document in a response is a document of the acting user.\<close>

lemma ownPopulated_populate:
  assumes "\<forall>c\<in>set (categories d). categoryId t = Some (c_id c) \<longrightarrow> c_userId c = actor"
  shows "ownPopulated actor d (populate (categories d) t)"
proof (cases "categoryId t")
  case None
  then show ?thesis by (simp add: populate_def ownPopulated_def)
next
  case (Some i)
  show ?thesis
  proof (cases "findOne (\<lambda>c. c_id c = i) (categories d)")
    case None
    with Some show ?thesis by (simp add: populate_def ownPopulated_def)
  next
    case c: (Some c)
    from findOne_Some_holds[OF c] have ci: "c_id c = i" and cin: "c \<in> set (categories d)"
      by simp_all
    with assms Some have "c_userId c = actor"
      by auto
    with Some c ci cin show ?thesis
      by (auto simp: populate_def ownPopulated_def list_ex_iff)
  qed
qed

lemma ownPopulated_own_task:
  assumes "consistent d" "t \<in> set (tasks d)" "t_userId t = actor" "categoryId u = categoryId t"
  shows "ownPopulated actor d (populate (categories d) u)"
proof -
  have "\<forall>c\<in>set (categories d). categoryId u = Some (c_id c) \<longrightarrow> c_userId c = actor"
    using consistentD[OF assms(1,2)] assms(3,4) by auto
  then show ?thesis by (rule ownPopulated_populate)
qed

lemma ownPopulated_own_category:
  assumes "consistent d" "ownCategoryById actor c (categories d) = Some x" "categoryId u = Some c"
  shows "ownPopulated actor d (populate (categories d) u)"
proof -
  have "\<forall>y\<in>set (categories d). categoryId u = Some (c_id y) \<longrightarrow> c_userId y = actor"
    using own_category_only[OF assms(1,2)] assms(3) by auto
  then show ?thesis by (rule ownPopulated_populate)
qed

lemma reply_getTask:
  assumes "consistent d"
  shows "ownReply actor d (fst (getTask actor i d))"
proof (cases "ownTask actor i (tasks d)")
  case None
  then show ?thesis by (simp add: getTask_def)
next
  case (Some t)
  from ownTask_SomeD[OF Some] have t: "t \<in> set (tasks d)" "t_userId t = actor"
    by simp_all
  from ownPopulated_own_task[OF assms t refl] t Some show ?thesis
    by (simp add: getTask_def)
qed

lemma reply_listTasks:
  assumes "consistent d"
  shows "ownReply actor d (fst (listTasks se actor q d))"
proof -
  have "list_all (\<lambda>(t, p). t \<in> set (tasks d) \<and> t_userId t = actor \<and> ownPopulated actor d p)
          (map (\<lambda>t. (t, populate (categories d) t))
             (sortBy le (filter (taskFilter search actor q) (tasks d))))" for search le
    unfolding list_all_iff
  proof
    fix x
    assume "x \<in> set (map (\<lambda>t. (t, populate (categories d) t))
                       (sortBy le (filter (taskFilter search actor q) (tasks d))))"
    then obtain t where x: "x = (t, populate (categories d) t)"
      and t: "t \<in> set (tasks d)" "t_userId t = actor"
      by (auto simp: set_sortBy dest: taskFilter_own)
    from ownPopulated_own_task[OF assms t refl] x t
    show "case x of (t, p) \<Rightarrow> t \<in> set (tasks d) \<and> t_userId t = actor \<and> ownPopulated actor d p"
      by simp
  qed
  then show ?thesis
    by (simp add: listTasks_def split: option.split)
qed

lemma reply_taskStats: "ownReply actor d (fst (taskStats pc now actor d))"
  by (simp add: taskStats_def Let_def)

lemma reply_createTask:
  assumes "consistent d"
  shows "ownReply actor d (fst (createTask newId now actor b d))"
proof (cases "validateTask b = []")
  case False
  then show ?thesis
    by (simp add: createTask_def)
next
  case valid: True
  show ?thesis
  proof (cases "givenCategory (b_categoryId (sanitizeTask b))")
    case None
    then show ?thesis
      using valid by (simp add: createTask_def Let_def)
  next
    case given: (Some g)
    show ?thesis
    proof (cases g)
      case None
      then show ?thesis
        using valid given by (simp add: createTask_def Let_def populate_none ownPopulated_def)
    next
      case c: (Some c)
      show ?thesis
      proof (cases "ownCategoryById actor c (categories d)")
        case None
        then show ?thesis
          using valid given c by (simp add: createTask_def Let_def)
      next
        case (Some x)
        have "ownPopulated actor d (populate (categories d) u)" if "categoryId u = Some c" for u
          using ownPopulated_own_category[OF assms Some that] .
        then show ?thesis
          using valid given c Some
          by (simp add: createTask_def Let_def populate_incTaskCount)
      qed
    qed
  qed
qed

lemma reply_updateTask:
  assumes "consistent d"
  shows "ownReply actor d (fst (updateTask now actor i b d))"
proof (cases "validateTask b = []")
  case False
  then show ?thesis
    by (simp add: updateTask_def)
next
  case valid: True
  show ?thesis
  proof (cases "ownTask actor i (tasks d)")
    case None
    then show ?thesis
      using valid by (simp add: updateTask_def Let_def)
  next
    case (Some t)
    note own = ownTask_SomeD[OF Some]
    show ?thesis
    proof (cases "givenCategory (b_categoryId (sanitizeTask b))")
      case None
      then show ?thesis
        using valid Some by (simp add: updateTask_def Let_def)
    next
      case given: (Some g)
      let ?u = "applyTaskUpdate now (sanitizeTask b) g t"
      show ?thesis
      proof (cases "case g of None \<Rightarrow> True
                    | Some c \<Rightarrow> ownCategoryById actor c (categories d) \<noteq> None")
        case False
        then show ?thesis
          using valid Some given
          by (cases g) (simp_all add: updateTask_def Let_def strictNe_def)
      next
        case True
        have all: "fst (updateTask now actor i b d) = Inr (TaskReply ?u (populate (categories d) ?u))"
          using valid Some own_task_only[OF assms Some] given True
          by (rule updateTask_reply)
        have "ownPopulated actor d (populate (categories d) ?u)"
        proof (cases "b_categoryId (sanitizeTask b)")
          case None
          then have "categoryId ?u = categoryId t"
            by (simp add: applyTaskUpdate_def)
          from ownPopulated_own_task[OF assms own[THEN conjunct1] _ this] own show ?thesis
            by simp
        next
          case s: (Some s)
          then have cu: "categoryId ?u = g"
            by (simp add: applyTaskUpdate_def)
          show ?thesis
          proof (cases g)
            case None
            with cu show ?thesis by (simp add: populate_none ownPopulated_def)
          next
            case c: (Some c)
            with True obtain x where "ownCategoryById actor c (categories d) = Some x"
              by auto
            from ownPopulated_own_category[OF assms this] cu c show ?thesis
              by simp
          qed
        qed
        with all own show ?thesis
          by simp
      qed
    qed
  qed
qed

lemma reply_toggleTask:
  assumes "consistent d"
  shows "ownReply actor d (fst (toggleTask now actor i d))"
proof (cases "ownTask actor i (tasks d)")
  case None
  then show ?thesis by (simp add: toggleTask_def)
next
  case (Some t)
  from ownTask_SomeD[OF Some] have t: "t \<in> set (tasks d)" "t_userId t = actor"
    by simp_all
  from ownPopulated_own_task[OF assms t] t Some show ?thesis
    by (simp add: toggleTask_def Let_def toggleComplete_eq loaded_def)
qed

lemma reply_deleteTask: "ownReply actor d (fst (deleteTask actor i d))"
  by (simp add: deleteTask_def Let_def split: option.split)

lemma reply_listCategories: "ownReply actor d (fst (listCategories actor q d))"
  by (simp add: listCategories_def list_all_iff set_sortBy categoryFilter_def)

lemma reply_categoryStats: "ownReply actor d (fst (categoryStats actor d))"
proof -
  have "list_ex (\<lambda>x. c_id x = c_id c \<and> name x = name c \<and> color x = color c
                     \<and> taskCount x = taskCount c \<and> c_userId x = actor) (categories d)"
    if "c \<in> set (take 5 (sortBy le (filter (\<lambda>c. c_userId c = actor \<and> 0 < taskCount c)
                                      (categories d))))" for c le
  proof -
    from in_set_takeD[OF that] have "c \<in> set (categories d)" "c_userId c = actor"
      by (simp_all add: set_sortBy)
    then show ?thesis
      by (auto simp: list_ex_iff)
  qed
  then show ?thesis
    by (simp add: categoryStats_def Let_def list_all_iff)
qed

lemma reply_getCategory: "ownReply actor d (fst (getCategory actor i d))"
proof (cases "ownCategoryById actor i (categories d)")
  case None
  then show ?thesis by (simp add: getCategory_def)
next
  case (Some c)
  with ownCategoryById_SomeD[OF Some] show ?thesis by (simp add: getCategory_def)
qed

lemma reply_createCategory: "ownReply actor d (fst (createCategory re newId actor b d))"
  by (simp add: createCategory_def Let_def split: option.split)

lemma reply_updateCategory:
  assumes "consistent d"
  shows "ownReply actor d (fst (updateCategory re actor i b d))"
proof (cases "ownCategoryById actor i (categories d)")
  case None
  then show ?thesis
    by (simp add: updateCategory_def Let_def)
next
  case (Some c)
  note only = own_category_only[OF assms Some]
  have "c_userId s = actor" if s: "findOne (\<lambda>x. c_id x = i) (categories d) = Some s" for s
  proof -
    from findOne_Some_holds[OF s] have "c_id s = i" "s \<in> set (categories d)"
      by simp_all
    with only show ?thesis by blast
  qed
  then show ?thesis
    using Some by (simp add: updateCategory_def Let_def split: option.split)
qed

lemma reply_deleteCategory: "ownReply actor d (fst (deleteCategory now actor i d))"
  by (simp add: deleteCategory_def Let_def split: option.split)

lemma reply_toggleCategory: "ownReply actor d (fst (toggleCategory re actor i d))"
proof (cases "ownCategoryById actor i (categories d)")
  case None
  then show ?thesis by (simp add: toggleCategory_def)
next
  case (Some c)
  with ownCategoryById_SomeD[OF Some] show ?thesis by (simp add: toggleCategory_def Let_def)
qed

lemma reply_reorderCategory: "ownReply actor d (fst (reorderCategory re actor i so d))"
proof (cases "ownCategoryById actor i (categories d)")
  case None
  then show ?thesis by (simp add: reorderCategory_def split: option.split)
next
  case (Some c)
  with ownCategoryById_SomeD[OF Some] show ?thesis
    by (simp add: reorderCategory_def Let_def split: option.split)
qed

lemma handle_reply:
  assumes "consistent d"
  shows "ownReply actor d (fst (handle lib now actor r d))"
  using assms
  by (cases r)
     (simp_all add: reply_listTasks reply_taskStats reply_listCategories reply_categoryStats
        reply_getTask reply_createTask reply_updateTask reply_toggleTask
        reply_deleteTask reply_getCategory reply_createCategory reply_updateCategory
        reply_deleteCategory reply_toggleCategory reply_reorderCategory)

text \<open>
  A body that names a category of another user, in either case of the hexadecimal
  letters, is answered with InvalidCategory.
\<close>

lemma foreign_category_invalid:
  assumes "consistent d" "c \<in> set (categories d)" "c_userId c \<noteq> actor"
    and "validateTask b = []" "b_categoryId b = Some s" "castObjectId s = Some (c_id c)"
  shows "createTask newId now actor b d = (Inl InvalidCategory, d)"
    and "ownTask actor i (tasks d) \<noteq> None \<Longrightarrow> updateTask now actor i b d = (Inl InvalidCategory, d)"
proof -
  from assms(6) have "s \<noteq> []"
    by (auto simp: castObjectId_def split: if_splits)
  with assms(5,6) have g: "givenCategory (b_categoryId (sanitizeTask b)) = Some (Some (c_id c))"
    by (simp add: givenCategory_def truthy_def orEmpty_def sanitizeTask_def)
  note hid = foreign_category_hidden[OF assms(1,2,3)]
  show "createTask newId now actor b d = (Inl InvalidCategory, d)"
    using assms(4) g hid by (simp add: createTask_def Let_def)
  show "updateTask now actor i b d = (Inl InvalidCategory, d)" if "ownTask actor i (tasks d) \<noteq> None"
    using that assms(4) g hid
    by (auto simp: updateTask_def Let_def strictNe_def)
qed

lemma findByUser_own:
  assumes "consistent d" "x \<in> set (findByUser actor opts d)"
  shows "fst x \<in> set (tasks d)" "t_userId (fst x) = actor" "ownPopulated actor d (snd x)"
proof -
  from assms(2) obtain t where x: "x = (t, populate (categories d) t)"
    and t: "t \<in> set (tasks d)" "t_userId t = actor"
    by (auto simp: findByUser_def)
  from x t show "fst x \<in> set (tasks d)" "t_userId (fst x) = actor"
    by simp_all
  from ownPopulated_own_task[OF assms(1) t refl] x show "ownPopulated actor d (snd x)"
    by simp
qed

text \<open>
  C2, amended, for every route of the database-backed backend (list, get, create, update,
  toggle, delete, reorder and statistics, on tasks and on categories), on collections with
  unique ids in which a referenced category belongs to the owner of the task that
  references it.
  \<^item> A by-id task request (get, update, toggle, delete) on a task of another user changes
    nothing and is answered like the same request on collections without that task:
    with TaskNotFound, or with the validation failure of its body.
  \<^item> A by-id category request (get, update, delete, toggle, reorder) on a category of
    another user likewise, with CategoryNotFound.
  \<^item> Creating a task in a category of another user, or moving one's own task into it,
    fails with InvalidCategory and changes nothing.
  \<^item> No request changes, adds or removes a task or category of another user.
  \<^item> Every task and category in a response, also in a list, in the statistics and where
    a category is populated into a task, is a document of the acting user.
  \<^item> The response to a request is the response to the same request on collections that
    hold the tasks and categories of the acting user only: the documents of other users
    are to every request as if they did not exist.
  \<^item> Task.findByUser returns tasks of that user only, with categories of that user.
\<close>

theorem C2_ownership_scoping:
  assumes "consistent d"
  shows "(\<forall>t\<in>set (tasks d). t_userId t \<noteq> actor \<and> taskTarget r = Some (t_id t)
            \<longrightarrow> foreignTaskNotFound lib now actor r d t)
       \<and> (\<forall>c\<in>set (categories d). c_userId c \<noteq> actor \<and> categoryTarget r = Some (c_id c)
            \<longrightarrow> foreignCategoryNotFound lib now actor r d c)
       \<and> (\<forall>c\<in>set (categories d).
            c_userId c \<noteq> actor \<and> validateTask b = [] \<and> b_categoryId b = Some s
            \<and> castObjectId s = Some (c_id c)
            \<longrightarrow> createTask newId now actor b d = (Inl InvalidCategory, d)
                \<and> (ownTask actor i (tasks d) \<noteq> None
                     \<longrightarrow> updateTask now actor i b d = (Inl InvalidCategory, d)))
       \<and> othersUntouched actor d (snd (handle lib now actor r d))
       \<and> ownReply actor d (fst (handle lib now actor r d))
       \<and> fst (handle lib now actor r (ownRows actor d)) = fst (handle lib now actor r d)
       \<and> (\<forall>x\<in>set (findByUser actor opts d).
            fst x \<in> set (tasks d) \<and> t_userId (fst x) = actor \<and> ownPopulated actor d (snd x))"
proof (intro conjI ballI impI)
  fix t
  assume "t \<in> set (tasks d)" and "t_userId t \<noteq> actor \<and> taskTarget r = Some (t_id t)"
  then show "foreignTaskNotFound lib now actor r d t"
    using foreign_task_not_found[OF assms] by blast
next
  fix c
  assume "c \<in> set (categories d)"
    and "c_userId c \<noteq> actor \<and> categoryTarget r = Some (c_id c)"
  then show "foreignCategoryNotFound lib now actor r d c"
    using foreign_category_not_found[OF assms] by blast
next
  fix c
  assume "c \<in> set (categories d)"
    and "c_userId c \<noteq> actor \<and> validateTask b = [] \<and> b_categoryId b = Some s
         \<and> castObjectId s = Some (c_id c)"
  then show "createTask newId now actor b d = (Inl InvalidCategory, d)"
    using foreign_category_invalid(1)[OF assms] by blast
next
  fix c
  assume "c \<in> set (categories d)"
    and "c_userId c \<noteq> actor \<and> validateTask b = [] \<and> b_categoryId b = Some s
         \<and> castObjectId s = Some (c_id c)"
    and "ownTask actor i (tasks d) \<noteq> None"
  then show "updateTask now actor i b d = (Inl InvalidCategory, d)"
    using foreign_category_invalid(2)[OF assms] by blast
next
  show "othersUntouched actor d (snd (handle lib now actor r d))"
    by (rule handle_frame[OF assms])
next
  show "ownReply actor d (fst (handle lib now actor r d))"
    by (rule handle_reply[OF assms])
next
  show "fst (handle lib now actor r (ownRows actor d)) = fst (handle lib now actor r d)"
    by (rule handle_own_rows[OF assms])
next
  fix x
  assume "x \<in> set (findByUser actor opts d)"
  then show "fst x \<in> set (tasks d)" and "t_userId (fst x) = actor"
    and "ownPopulated actor d (snd x)"
    using findByUser_own[OF assms] by blast+
qed
theorem C2_ownership_scoping_witness:
  "consistent sharedDb
   \<and> milk \<in> set (tasks sharedDb) \<and> t_userId milk \<noteq> bob
   \<and> handle plainLibrary 5000 bob (DeleteTask milkId) sharedDb = (Inl TaskNotFound, sharedDb)
   \<and> errands\<lparr>taskCount := 1\<rparr> \<in> set (categories sharedDb) \<and> c_userId errands \<noteq> bob
   \<and> handle plainLibrary 5000 bob (DeleteCategory errandsId) sharedDb
       = (Inl CategoryNotFound, sharedDb)
   \<and> validateTask upperBody = []
   \<and> b_categoryId upperBody = Some ''64C0000000000000000000E1''
   \<and> castObjectId ''64C0000000000000000000E1'' = Some (c_id errands)
   \<and> createTask laterId 5000 bob upperBody sharedDb = (Inl InvalidCategory, sharedDb)
   \<and> ownTask bob walkId (tasks sharedDb) \<noteq> None
   \<and> updateTask 5000 bob walkId upperBody sharedDb = (Inl InvalidCategory, sharedDb)
   \<and> othersUntouched bob sharedDb (snd (handle plainLibrary 5000 bob (DeleteTask milkId) sharedDb))
   \<and> handle plainLibrary 5000 bob (ListTasks noQuery) sharedDb
       = (Inr (TaskListReply [(walk, None)]), sharedDb)
   \<and> ownReply bob sharedDb (Inr (TaskListReply [(walk, None)]))
   \<and> fst (handle plainLibrary 5000 bob (ListTasks noQuery) (ownRows bob sharedDb))
       = Inr (TaskListReply [(walk, None)])
   \<and> findByUser bob noOptions sharedDb = [(walk, None)]
   \<and> t_userId walk = bob"
proof -
  have con: "consistent sharedDb"
    by (simp add: consistent_def sharedDb_def example_defs walk_def walkId_def)
  have m: "milk \<in> set (tasks sharedDb)" "t_userId milk \<noteq> bob"
    "taskTarget (DeleteTask milkId) = Some (t_id milk)"
    by (simp_all add: sharedDb_def example_defs)
  have e: "errands\<lparr>taskCount := 1\<rparr> \<in> set (categories sharedDb)"
    "c_userId (errands\<lparr>taskCount := 1\<rparr>) \<noteq> bob"
    "categoryTarget (DeleteCategory errandsId) = Some (c_id (errands\<lparr>taskCount := 1\<rparr>))"
    by (simp_all add: sharedDb_def example_defs)
  have v: "validateTask upperBody = []"
    "b_categoryId upperBody = Some ''64C0000000000000000000E1''"
    "castObjectId ''64C0000000000000000000E1'' = Some (c_id (errands\<lparr>taskCount := 1\<rparr>))"
    by (simp_all add: upperBody_def example_defs validation_defs toLower_def)
  have w: "ownTask bob walkId (tasks sharedDb) \<noteq> None"
    by (simp add: sharedDb_def example_defs walk_def walkId_def query_defs)
  note th1 = C2_ownership_scoping[OF con, where actor = bob and r = "DeleteTask milkId"
      and lib = plainLibrary and now = 5000 and b = upperBody and newId = laterId
      and i = walkId and opts = noOptions and s = "''64C0000000000000000000E1''"]
  note th2 = C2_ownership_scoping[OF con, where actor = bob and r = "DeleteCategory errandsId"
      and lib = plainLibrary and now = 5000]
  note th3 = C2_ownership_scoping[OF con, where actor = bob and r = "ListTasks noQuery"
      and lib = plainLibrary and now = 5000]
  from th1 m have "foreignTaskNotFound plainLibrary 5000 bob (DeleteTask milkId) sharedDb milk"
    by blast
  then have a: "handle plainLibrary 5000 bob (DeleteTask milkId) sharedDb
                  = (Inl TaskNotFound, sharedDb)"
    unfolding foreignTaskNotFound_def by simp
  from th2 e have "foreignCategoryNotFound plainLibrary 5000 bob (DeleteCategory errandsId)
                     sharedDb (errands\<lparr>taskCount := 1\<rparr>)"
    by blast
  then have b: "handle plainLibrary 5000 bob (DeleteCategory errandsId) sharedDb
                  = (Inl CategoryNotFound, sharedDb)"
    unfolding foreignCategoryNotFound_def by simp
  from th1 e(1,2) v
  have c: "createTask laterId 5000 bob upperBody sharedDb = (Inl InvalidCategory, sharedDb)"
    and "ownTask bob walkId (tasks sharedDb) \<noteq> None
           \<longrightarrow> updateTask 5000 bob walkId upperBody sharedDb = (Inl InvalidCategory, sharedDb)"
    by blast+
  with w have u: "updateTask 5000 bob walkId upperBody sharedDb = (Inl InvalidCategory, sharedDb)"
    by blast
  from th1 have f: "othersUntouched bob sharedDb
                      (snd (handle plainLibrary 5000 bob (DeleteTask milkId) sharedDb))"
    by blast
  have ce: "c_userId errands \<noteq> bob" "castObjectId ''64C0000000000000000000E1'' = Some (c_id errands)"
    using e(2) v(3) by simp_all
  have ls: "handle plainLibrary 5000 bob (ListTasks noQuery) sharedDb
              = (Inr (TaskListReply [(walk, None)]), sharedDb)"
    by (simp add: listTasks_def noQuery_def taskFilter_def sortBy_def sharedDb_def example_defs
          walk_def walkId_def truthy_def populate_def)
  from th3 have "ownReply bob sharedDb (fst (handle plainLibrary 5000 bob (ListTasks noQuery) sharedDb))"
    and "fst (handle plainLibrary 5000 bob (ListTasks noQuery) (ownRows bob sharedDb))
           = fst (handle plainLibrary 5000 bob (ListTasks noQuery) sharedDb)"
    by blast+
  with ls have r: "ownReply bob sharedDb (Inr (TaskListReply [(walk, None)]))"
    and n: "fst (handle plainLibrary 5000 bob (ListTasks noQuery) (ownRows bob sharedDb))
              = Inr (TaskListReply [(walk, None)])"
    by simp_all
  have l: "findByUser bob noOptions sharedDb = [(walk, None)]"
    by (simp add: findByUser_def noOptions_def sharedDb_def example_defs walk_def walkId_def
          truthy_def populate_def)
  from th1 have "\<forall>x\<in>set (findByUser bob noOptions sharedDb).
                  fst x \<in> set (tasks sharedDb) \<and> t_userId (fst x) = bob
                  \<and> ownPopulated bob sharedDb (snd x)"
    by blast
  with l have o: "t_userId walk = bob"
    by simp
  show ?thesis
    using con m(1,2) a e(1) ce(1) b v(1,2) ce(2) c w u f ls r n l o by blast
qed
section \<open>The routes keep the collections consistent\<close>

lemma consistent_iff:
  "consistent d \<longleftrightarrow>
     distinct (map t_id (tasks d)) \<and> distinct (map c_id (categories d))
     \<and> (\<forall>t\<in>set (tasks d). \<forall>c\<in>set (categories d).
           categoryId t = Some (c_id c) \<longrightarrow> c_userId c = t_userId t)"
  by (auto simp: consistent_def list_all_iff)

lemma map_updateOne_key: "(\<And>x. k (f x) = k x) \<Longrightarrow> map k (updateOne P f xs) = map k xs"
  by (induction xs) auto

lemma set_deleteOne_subset: "set (deleteOne P xs) \<subseteq> set xs"
  by (induction xs) auto

lemma distinct_deleteOne: "distinct (map k xs) \<Longrightarrow> distinct (map k (deleteOne P xs))"
proof (induction xs)
  case Nil
  then show ?case by simp
next
  case (Cons a xs)
  have "k a \<notin> k ` set (deleteOne P xs)" if "k a \<notin> k ` set xs"
    using that set_deleteOne_subset[of P xs] by blast
  with Cons show ?case by auto
qed

lemma incTaskCount_ids: "map c_id (incTaskCount i n cs) = map c_id cs"
  unfolding incTaskCount_def by (rule map_updateOne_key) simp

text \<open>
  Consistency is about the ids, the owners and the references only: it carries over to
  collections whose documents have the ids, owners and references of documents of
  consistent collections.
\<close>

lemma consistent_transfer:
  assumes "consistent d"
    and "distinct (map t_id ts)" "distinct (map c_id cs)"
    and "\<forall>t\<in>set ts. categoryId t = None \<or>
           (\<exists>y\<in>set (tasks d). categoryId y = categoryId t \<and> t_userId y = t_userId t)
           \<or> (\<exists>c\<in>set (categories d). categoryId t = Some (c_id c) \<and> c_userId c = t_userId t)"
    and "\<forall>c\<in>set cs. \<exists>y\<in>set (categories d). c_id y = c_id c \<and> c_userId y = c_userId c"
  shows "consistent \<lparr>tasks = ts, categories = cs\<rparr>"
proof -
  from assms(1) have dc: "distinct (map c_id (categories d))"
    and ref: "\<And>t c. t \<in> set (tasks d) \<Longrightarrow> c \<in> set (categories d) \<Longrightarrow>
                categoryId t = Some (c_id c) \<Longrightarrow> c_userId c = t_userId t"
    by (auto simp: consistent_iff)
  have "c_userId c = t_userId t"
    if t: "t \<in> set ts" and c: "c \<in> set cs" and r: "categoryId t = Some (c_id c)" for t c
  proof -
    from assms(5) c obtain y where y: "y \<in> set (categories d)" "c_id y = c_id c"
      "c_userId y = c_userId c"
      by blast
    from assms(4) t r consider
      (task) z where "z \<in> set (tasks d)" "categoryId z = categoryId t" "t_userId z = t_userId t"
      | (cat) e where "e \<in> set (categories d)" "categoryId t = Some (c_id e)"
          "c_userId e = t_userId t"
      by fastforce
    then show ?thesis
    proof cases
      case task
      with ref[of z y] y r show ?thesis by simp
    next
      case cat
      with r y have "c_id e = c_id y" by simp
      with distinct_key_eq[OF dc cat(1) y(1)] have "e = y" by simp
      with cat(3) y(3) show ?thesis by simp
    qed
  qed
  with assms(2,3) show ?thesis
    by (simp add: consistent_iff)
qed

lemma incTaskCount_origin:
  "\<forall>c\<in>set (incTaskCount i n cs). \<exists>y\<in>set cs. c_id y = c_id c \<and> c_userId y = c_userId c"
  using incTaskCount_members by blast

lemma same_origin: "\<forall>c\<in>set cs. \<exists>y\<in>set cs. c_id y = c_id c \<and> c_userId y = c_userId c"
  by blast

lemma consistent_createTask:
  assumes "consistent d" and fresh: "newId \<notin> set (map t_id (tasks d))"
  shows "consistent (snd (createTask newId now actor b d))"
proof (cases "validateTask b = []")
  case False
  then show ?thesis
    using assms(1) by (simp add: createTask_def)
next
  case valid: True
  let ?b = "sanitizeTask b"
  have dc: "distinct (map c_id (categories d))"
    using assms(1) by (simp add: consistent_iff)
  have old: "\<forall>t\<in>set (tasks d). categoryId t = None \<or>
           (\<exists>y\<in>set (tasks d). categoryId y = categoryId t \<and> t_userId y = t_userId t)
           \<or> (\<exists>c\<in>set (categories d). categoryId t = Some (c_id c) \<and> c_userId c = t_userId t)"
    by blast
  show ?thesis
  proof (cases "givenCategory (b_categoryId ?b)")
    case None
    then show ?thesis
      using assms(1) valid by (simp add: createTask_def Let_def)
  next
    case given: (Some g)
    let ?t = "\<lparr>t_id = newId, title = orEmpty (b_title ?b), t_description = b_description ?b,
               completed = False, priority = orMedium (b_priority ?b), categoryId = g,
               dueDate = isoDate (b_dueDate ?b), t_userId = actor, t_createdAt = now,
               t_updatedAt = now\<rparr>"
    have dt: "distinct (map t_id (tasks d @ [?t]))"
      using assms(1) fresh by (simp add: consistent_iff)
    show ?thesis
    proof (cases g)
      case None
      then have "snd (createTask newId now actor b d)
                   = \<lparr>tasks = tasks d @ [?t], categories = categories d\<rparr>"
        using valid given by (simp add: createTask_def Let_def)
      moreover have "consistent \<lparr>tasks = tasks d @ [?t], categories = categories d\<rparr>"
        using assms(1) dt dc _ same_origin
      proof (rule consistent_transfer)
        show "\<forall>t\<in>set (tasks d @ [?t]). categoryId t = None \<or>
           (\<exists>y\<in>set (tasks d). categoryId y = categoryId t \<and> t_userId y = t_userId t)
           \<or> (\<exists>c\<in>set (categories d). categoryId t = Some (c_id c) \<and> c_userId c = t_userId t)"
          using old None by auto
      qed
      ultimately show ?thesis by simp
    next
      case i: (Some i)
      show ?thesis
      proof (cases "ownCategoryById actor i (categories d)")
        case None
        then show ?thesis
          using assms(1) valid given i by (simp add: createTask_def Let_def)
      next
        case c: (Some c)
        note cD = ownCategoryById_SomeD[OF c]
        have "snd (createTask newId now actor b d) =
                \<lparr>tasks = tasks d @ [?t], categories = incTaskCount i 1 (categories d)\<rparr>"
          using valid given i c by (simp add: createTask_def Let_def)
        moreover have "consistent \<lparr>tasks = tasks d @ [?t],
                                    categories = incTaskCount i 1 (categories d)\<rparr>"
          using assms(1) dt _ _ incTaskCount_origin
        proof (rule consistent_transfer)
          show "distinct (map c_id (incTaskCount i 1 (categories d)))"
            using dc by (simp add: incTaskCount_ids)
          show "\<forall>t\<in>set (tasks d @ [?t]). categoryId t = None \<or>
             (\<exists>y\<in>set (tasks d). categoryId y = categoryId t \<and> t_userId y = t_userId t)
             \<or> (\<exists>c\<in>set (categories d). categoryId t = Some (c_id c) \<and> c_userId c = t_userId t)"
            using old i cD by auto
        qed
        ultimately show ?thesis by simp
      qed
    qed
  qed
qed

lemma consistent_updateTask:
  assumes "consistent d"
  shows "consistent (snd (updateTask now actor i b d))"
proof (cases "validateTask b = []")
  case False
  then show ?thesis
    using assms by (simp add: updateTask_def)
next
  case valid: True
  show ?thesis
  proof (cases "ownTask actor i (tasks d)")
    case None
    then show ?thesis
      using assms valid by (simp add: updateTask_def Let_def)
  next
    case (Some t)
    note only = own_task_only[OF assms Some]
    let ?b = "sanitizeTask b"
    show ?thesis
    proof (cases "givenCategory (b_categoryId ?b)")
      case None
      then show ?thesis
        using assms valid Some by (simp add: updateTask_def Let_def)
    next
      case given: (Some g)
      let ?ts = "updateOne (\<lambda>t. t_id t = i) (applyTaskUpdate now ?b g) (tasks d)"
      let ?cs1 = "case categoryId t of None \<Rightarrow> categories d
                  | Some old \<Rightarrow>
                      if strictNe (b_categoryId ?b) (categoryId t)
                      then incTaskCount old (- 1) (categories d) else categories d"
      let ?cs2 = "case g of None \<Rightarrow> ?cs1
                  | Some c \<Rightarrow>
                      if strictNe (b_categoryId ?b) (categoryId t)
                      then incTaskCount c 1 ?cs1 else ?cs1"
      have dt: "distinct (map t_id ?ts)"
        using assms by (simp add: consistent_iff map_updateOne_key)
      have ids1: "map c_id ?cs1 = map c_id (categories d)"
        by (simp add: incTaskCount_ids split: option.split)
      then have ids2: "map c_id ?cs2 = map c_id (categories d)"
        by (cases g) (simp_all add: incTaskCount_ids)
      have dc: "distinct (map c_id ?cs2)"
        using assms unfolding ids2 by (simp add: consistent_iff)
      have o1: "\<forall>c\<in>set ?cs1. \<exists>y\<in>set (categories d). c_id y = c_id c \<and> c_userId y = c_userId c"
        using incTaskCount_members by (auto split: option.split)
      have o2: "\<forall>c\<in>set ?cs2. \<exists>y\<in>set (categories d). c_id y = c_id c \<and> c_userId y = c_userId c"
      proof (cases g)
        case None
        with o1 show ?thesis by simp
      next
        case n: (Some n)
        show ?thesis
        proof
          fix c
          assume "c \<in> set ?cs2"
          then have "c \<in> set ?cs1 \<or> (\<exists>z\<in>set ?cs1. c_id z = c_id c \<and> c_userId z = c_userId c)"
            using incTaskCount_members[of c n 1 ?cs1] n
            by (auto split: if_splits)
          with o1 show "\<exists>y\<in>set (categories d). c_id y = c_id c \<and> c_userId y = c_userId c"
            by metis
        qed
      qed
      show ?thesis
      proof (cases "case g of None \<Rightarrow> False
                    | Some c \<Rightarrow> ownCategoryById actor c (categories d) = None")
        case True
        then show ?thesis
          using assms valid Some given by (simp add: updateTask_def Let_def strictNe_def)
      next
        case ok: False
        have refs: "\<forall>x\<in>set ?ts. categoryId x = None \<or>
             (\<exists>y\<in>set (tasks d). categoryId y = categoryId x \<and> t_userId y = t_userId x)
             \<or> (\<exists>c\<in>set (categories d). categoryId x = Some (c_id c) \<and> c_userId c = t_userId x)"
        proof
          fix x
          assume "x \<in> set ?ts"
          from updateOne_members[OF this] show "categoryId x = None \<or>
             (\<exists>y\<in>set (tasks d). categoryId y = categoryId x \<and> t_userId y = t_userId x)
             \<or> (\<exists>c\<in>set (categories d). categoryId x = Some (c_id c) \<and> c_userId c = t_userId x)"
          proof
            assume "x \<in> set (tasks d)"
            then show ?thesis by blast
          next
            assume "\<exists>y\<in>set (tasks d). t_id y = i \<and> x = applyTaskUpdate now ?b g y"
            then obtain y where y: "y \<in> set (tasks d)" "t_id y = i"
              "x = applyTaskUpdate now ?b g y"
              by blast
            with only have uy: "t_userId y = actor" by blast
            show ?thesis
            proof (cases "b_categoryId ?b")
              case None
              with y have "categoryId y = categoryId x" "t_userId y = t_userId x"
                by (simp_all add: applyTaskUpdate_def)
              with y(1) show ?thesis by blast
            next
              case s: (Some s)
              with y(3) have cx: "categoryId x = g"
                by (simp add: applyTaskUpdate_def)
              show ?thesis
              proof (cases g)
                case None
                with cx show ?thesis by simp
              next
                case n: (Some n)
                with ok obtain c where c: "ownCategoryById actor n (categories d) = Some c"
                  by auto
                from ownCategoryById_SomeD[OF c] y(3) cx n uy
                have "c \<in> set (categories d)" "categoryId x = Some (c_id c)"
                  "c_userId c = t_userId x"
                  by simp_all
                then show ?thesis by blast
              qed
            qed
          qed
        qed
        have "snd (updateTask now actor i b d) = \<lparr>tasks = ?ts, categories = ?cs2\<rparr>"
          using valid Some given ok by (simp add: updateTask_def Let_def strictNe_def)
        moreover have "consistent \<lparr>tasks = ?ts, categories = ?cs2\<rparr>"
          using assms dt dc refs o2 by (rule consistent_transfer)
        ultimately show ?thesis by simp
      qed
    qed
  qed
qed

lemma consistent_toggleTask:
  assumes "consistent d"
  shows "consistent (snd (toggleTask now actor i d))"
proof (cases "ownTask actor i (tasks d)")
  case None
  then show ?thesis
    using assms by (simp add: toggleTask_def)
next
  case (Some t)
  let ?f = "saveToggled (toggleComplete now now (loaded t))"
  let ?ts = "updateOne (\<lambda>t. t_id t = i) ?f (tasks d)"
  have dt: "distinct (map t_id ?ts)"
    using assms by (simp add: consistent_iff map_updateOne_key)
  have dc: "distinct (map c_id (categories d))"
    using assms by (simp add: consistent_iff)
  have refs: "\<forall>x\<in>set ?ts. categoryId x = None \<or>
           (\<exists>y\<in>set (tasks d). categoryId y = categoryId x \<and> t_userId y = t_userId x)
           \<or> (\<exists>c\<in>set (categories d). categoryId x = Some (c_id c) \<and> c_userId c = t_userId x)"
  proof
    fix x
    assume "x \<in> set ?ts"
    from updateOne_members[OF this]
    have "\<exists>y\<in>set (tasks d). categoryId y = categoryId x \<and> t_userId y = t_userId x"
      by auto
    then show "categoryId x = None \<or>
           (\<exists>y\<in>set (tasks d). categoryId y = categoryId x \<and> t_userId y = t_userId x)
           \<or> (\<exists>c\<in>set (categories d). categoryId x = Some (c_id c) \<and> c_userId c = t_userId x)"
      by blast
  qed
  have "snd (toggleTask now actor i d) = \<lparr>tasks = ?ts, categories = categories d\<rparr>"
    using Some by (simp add: toggleTask_def Let_def)
  moreover have "consistent \<lparr>tasks = ?ts, categories = categories d\<rparr>"
    using assms dt dc refs same_origin by (rule consistent_transfer)
  ultimately show ?thesis by simp
qed

lemma consistent_deleteTask:
  assumes "consistent d"
  shows "consistent (snd (deleteTask actor i d))"
proof (cases "ownTask actor i (tasks d)")
  case None
  then show ?thesis
    using assms by (simp add: deleteTask_def)
next
  case (Some t)
  let ?ts = "deleteOne (\<lambda>t. t_id t = i) (tasks d)"
  let ?cs = "case categoryId t of None \<Rightarrow> categories d
             | Some c \<Rightarrow> incTaskCount c (- 1) (categories d)"
  have dt: "distinct (map t_id ?ts)"
    using assms by (simp add: consistent_iff distinct_deleteOne)
  have dc: "distinct (map c_id ?cs)"
    using assms by (simp add: consistent_iff incTaskCount_ids split: option.split)
  have refs: "\<forall>x\<in>set ?ts. categoryId x = None \<or>
           (\<exists>y\<in>set (tasks d). categoryId y = categoryId x \<and> t_userId y = t_userId x)
           \<or> (\<exists>c\<in>set (categories d). categoryId x = Some (c_id c) \<and> c_userId c = t_userId x)"
    using set_deleteOne_subset[of "\<lambda>t. t_id t = i" "tasks d"] by blast
  have orig: "\<forall>c\<in>set ?cs. \<exists>y\<in>set (categories d). c_id y = c_id c \<and> c_userId y = c_userId c"
    using incTaskCount_members by (auto split: option.split)
  have "snd (deleteTask actor i d) = \<lparr>tasks = ?ts, categories = ?cs\<rparr>"
    using Some by (simp add: deleteTask_def Let_def)
  moreover have "consistent \<lparr>tasks = ?ts, categories = ?cs\<rparr>"
    using assms dt dc refs orig by (rule consistent_transfer)
  ultimately show ?thesis by simp
qed

lemma consistent_createCategory:
  assumes "consistent d"
    and fresh: "newId \<notin> set (map c_id (categories d))"
      "list_all (\<lambda>t. categoryId t \<noteq> Some newId) (tasks d)"
  shows "consistent (snd (createCategory re newId actor b d))"
proof -
  have "consistent (d\<lparr>categories := categories d @ [c]\<rparr>)" if "c_id c = newId" for c
    using assms that by (auto simp: consistent_iff list_all_iff)
  then show ?thesis
    using assms(1) by (simp add: createCategory_def Let_def split: option.split)
qed

lemma consistent_update_category_fields:
  assumes "consistent d" and keep: "\<And>x. c_id (f x) = c_id x \<and> c_userId (f x) = c_userId x"
  shows "consistent (d\<lparr>categories := updateOne P f (categories d)\<rparr>)"
proof -
  have dt: "distinct (map t_id (tasks d))"
    using assms(1) by (simp add: consistent_iff)
  have dc: "distinct (map c_id (updateOne P f (categories d)))"
    using assms(1) keep by (simp add: consistent_iff map_updateOne_key)
  have refs: "\<forall>x\<in>set (tasks d). categoryId x = None \<or>
           (\<exists>y\<in>set (tasks d). categoryId y = categoryId x \<and> t_userId y = t_userId x)
           \<or> (\<exists>c\<in>set (categories d). categoryId x = Some (c_id c) \<and> c_userId c = t_userId x)"
    by blast
  have orig: "\<forall>c\<in>set (updateOne P f (categories d)).
               \<exists>y\<in>set (categories d). c_id y = c_id c \<and> c_userId y = c_userId c"
  proof
    fix c
    assume "c \<in> set (updateOne P f (categories d))"
    from updateOne_members[OF this] keep
    show "\<exists>y\<in>set (categories d). c_id y = c_id c \<and> c_userId y = c_userId c"
      by metis
  qed
  have "consistent \<lparr>tasks = tasks d, categories = updateOne P f (categories d)\<rparr>"
    using assms(1) dt dc refs orig by (rule consistent_transfer)
  then show ?thesis
    by (simp add: consistent_iff)
qed

lemma consistent_updateCategory:
  assumes "consistent d"
  shows "consistent (snd (updateCategory re actor i b d))"
  using assms consistent_update_category_fields[OF assms, of "applyCategoryUpdate (sanitizeCategory b)"]
  by (simp add: updateCategory_def Let_def split: option.split)

lemma consistent_toggleCategory:
  assumes "consistent d"
  shows "consistent (snd (toggleCategory re actor i d))"
proof (cases "ownCategoryById actor i (categories d)")
  case None
  then show ?thesis
    using assms by (simp add: toggleCategory_def)
next
  case (Some c)
  then show ?thesis
    using assms consistent_update_category_fields[OF assms, of "\<lambda>x. x\<lparr>isActive := \<not> isActive c\<rparr>"]
    by (simp add: toggleCategory_def Let_def)
qed

lemma consistent_reorderCategory:
  assumes "consistent d"
  shows "consistent (snd (reorderCategory re actor i so d))"
proof -
  have "consistent (d\<lparr>categories := updateOne P (\<lambda>x. x\<lparr>sortOrder := n\<rparr>) (categories d)\<rparr>)" for P n
    using consistent_update_category_fields[OF assms, of "\<lambda>x. x\<lparr>sortOrder := n\<rparr>"] by simp
  then show ?thesis
    using assms by (simp add: reorderCategory_def Let_def split: option.split)
qed

lemma map_updateMany_key: "(\<And>x. k (f x) = k x) \<Longrightarrow> map k (updateMany P f xs) = map k xs"
  by (simp add: updateMany_def)

lemma consistent_deleteCategory:
  assumes "consistent d"
  shows "consistent (snd (deleteCategory now actor i d))"
proof -
  have "consistent \<lparr>tasks = preRemove now j (tasks d), categories = deleteOne Q (categories d)\<rparr>"
    for j Q
  proof -
    have dt: "distinct (map t_id (preRemove now j (tasks d)))"
      using assms by (simp add: consistent_iff preRemove_def map_updateMany_key)
    have dc: "distinct (map c_id (deleteOne Q (categories d)))"
      using assms by (simp add: consistent_iff distinct_deleteOne)
    have refs: "\<forall>x\<in>set (preRemove now j (tasks d)). categoryId x = None \<or>
           (\<exists>y\<in>set (tasks d). categoryId y = categoryId x \<and> t_userId y = t_userId x)
           \<or> (\<exists>c\<in>set (categories d). categoryId x = Some (c_id c) \<and> c_userId c = t_userId x)"
      by (auto simp: preRemove_def updateMany_def)
    have orig: "\<forall>c\<in>set (deleteOne Q (categories d)).
                 \<exists>y\<in>set (categories d). c_id y = c_id c \<and> c_userId y = c_userId c"
      using set_deleteOne_subset[of Q "categories d"] by blast
    show ?thesis
      using assms dt dc refs orig by (rule consistent_transfer)
  qed
  then show ?thesis
    using assms by (simp add: deleteCategory_def Let_def split: option.split)
qed

text \<open>
  Every request with new ids for the documents it creates leaves consistent collections
  consistent; the empty database is consistent.
\<close>

lemma handle_consistent:
  assumes "consistent d" "freshFor r d"
  shows "consistent (snd (handle lib now actor r d))"
  using assms
  by (cases r)
     (simp_all add: consistent_createTask consistent_updateTask consistent_toggleTask
        consistent_deleteTask consistent_createCategory consistent_updateCategory
        consistent_deleteCategory consistent_toggleCategory consistent_reorderCategory
        getTask_def getCategory_def listTasks_def taskStats_def listCategories_def
        categoryStats_def Let_def split: option.split)

lemma consistent_empty: "consistent \<lparr>tasks = [], categories = []\<rparr>"
  by (simp add: consistent_def)

section \<open>Updating a task within its category\<close>

text \<open>
  When the body of an update names the category that the task already has, the update
  route decrements and then increments the same count, which leaves the categories as
  they were.
\<close>

lemma updateOne_twice:
  "(\<And>x. P (g x) = P x) \<Longrightarrow> updateOne P f (updateOne P g xs) = updateOne P (\<lambda>x. f (g x)) xs"
  by (induction xs) auto

lemma updateOne_id: "(\<And>x. f x = x) \<Longrightarrow> updateOne P f xs = xs"
  by (induction xs) auto

lemma incTaskCount_cancel: "incTaskCount i 1 (incTaskCount i (- 1) cs) = cs"
proof -
  have "updateOne (\<lambda>c. c_id c = i) (\<lambda>c. c\<lparr>taskCount := taskCount c + 1\<rparr>)
          (updateOne (\<lambda>c. c_id c = i) (\<lambda>c. c\<lparr>taskCount := taskCount c + (- 1)\<rparr>) cs)
        = updateOne (\<lambda>c. c_id c = i)
            (\<lambda>c. (c\<lparr>taskCount := taskCount c + (- 1)\<rparr>)
                    \<lparr>taskCount := taskCount (c\<lparr>taskCount := taskCount c + (- 1)\<rparr>) + 1\<rparr>) cs"
    by (rule updateOne_twice) simp
  also have "\<dots> = cs"
    by (rule updateOne_id) simp
  finally show ?thesis
    by (simp add: incTaskCount_def)
qed

lemma update_same_category_keeps_counts:
  assumes "validateTask b = []" "ownTask actor i (tasks d) = Some t"
    and "categoryId t = Some c" "b_categoryId b = Some s" "castObjectId s = Some c"
    and "ownCategoryById actor c (categories d) \<noteq> None"
  shows "categories (snd (updateTask now actor i b d)) = categories d"
proof -
  from assms(5) have "s \<noteq> []"
    by (auto simp: castObjectId_def split: if_splits)
  with assms(4,5) have g: "givenCategory (b_categoryId (sanitizeTask b)) = Some (Some c)"
    by (simp add: givenCategory_def truthy_def orEmpty_def sanitizeTask_def)
  show ?thesis
    using assms(1,2,3,6) g
    by (auto simp: updateTask_def Let_def strictNe_def incTaskCount_cancel)
qed
section \<open>Completion toggle\<close>




text \<open>
  The fields of the document after toggleComplete, and so what the save writes, do not
  depend on the clock reading of the method.
\<close>

lemma toggleComplete_paths:
  "paths (toggleComplete n saved doc) = paths (toggleComplete m saved doc)"
  "saveToggled (toggleComplete n saved doc) = saveToggled (toggleComplete m saved doc)"
  by (simp_all add: toggleComplete_eq saveToggled_def fun_eq_iff)








end
